theory Spec2Isabelle
  imports Complex_Main "HOL-Library.Char_ord" "HOL-Library.List_Lexorder"
begin

section \<open>Errors and tile metadata\<close>

text \<open>
  The exceptions the modelled functions of \<^verbatim>\<open>yoclip/process.py\<close> can raise.
  \<open>ValueError\<close> carries the message of the \<^verbatim>\<open>raise ValueError(...)\<close>; \<open>RangeStepZero\<close> is
  the \<^verbatim>\<open>ValueError\<close> of \<^verbatim>\<open>range(a, b, 0)\<close>; \<open>ZeroDivisionError\<close> is integer \<^verbatim>\<open>//\<close> by zero;
  \<open>TorchError\<close> is the \<^verbatim>\<open>RuntimeError\<close> of \<^verbatim>\<open>torch.stack\<close> or \<^verbatim>\<open>@\<close> on tensors whose shapes
  do not fit; \<open>IndexError\<close> is a list index out of range; \<open>WindowError\<close> is the
  \<^verbatim>\<open>ValueError\<close> of a rasterio \<^verbatim>\<open>Window\<close> with a negative width or height.
\<close>

datatype error =
    ValueError string
  | RangeStepZero
  | ZeroDivisionError
  | TorchError
  | IndexError
  | WindowError

text \<open>An affine transform \<open>(a, b, c, d, e, f)\<close>: \<open>(x, y) \<mapsto> (a x + b y + c, d x + e y + f)\<close>.\<close>

record affine =
  af_a :: real
  af_b :: real
  af_c :: real
  af_d :: real
  af_e :: real
  af_f :: real

text \<open>\<^verbatim>\<open>Window(col_off, row_off, width, height)\<close> of rasterio.\<close>

record window =
  col_off :: int
  row_off :: int
  win_width :: int
  win_height :: int

text \<open>The metadata dictionary \<^verbatim>\<open>extract_geotiff_tiles\<close> builds for each tile it emits.\<close>

record tile_meta =
  tile_x :: int
  tile_y :: int
  tile_width :: int
  tile_height :: int
  row :: int
  col :: int
  win :: window
  transform :: affine
  source_file :: string

section \<open>Grid cell size\<close>

text \<open>Python's \<^verbatim>\<open>min\<close> over a non-empty sequence, given as head and rest.\<close>

definition py_min :: "int \<Rightarrow> int list \<Rightarrow> int" where
  "py_min x xs = fold min xs x"

text \<open>
  \<^verbatim>\<open>_create_grid_shapefile\<close>, the cell size: the function returns early when
  \<^verbatim>\<open>tile_metadata\<close> is empty (\<open>None\<close>); otherwise
  \<^verbatim>\<open>grid_cell_width = min(meta['tile_width'] for meta in tile_metadata)\<close> and
  \<^verbatim>\<open>grid_cell_height = min(meta['tile_height'] for meta in tile_metadata)\<close>.
\<close>

definition grid_cell_size :: "tile_meta list \<Rightarrow> (int \<times> int) option" where
  "grid_cell_size tile_metadata =
     (case tile_metadata of
        [] \<Rightarrow> None
      | m # ms \<Rightarrow> Some (py_min (tile_width m) (map tile_width ms),
                        py_min (tile_height m) (map tile_height ms)))"

text \<open>\<^verbatim>\<open>sorted(set(...))\<close> on integers.\<close>

definition sorted_set :: "int list \<Rightarrow> int list" where
  "sorted_set xs = sort (remdups xs)"

text \<open>\<^verbatim>\<open>[p[i+1] - p[i] for i in range(len(p) - 1)]\<close>.\<close>

fun consecutive_diffs :: "int list \<Rightarrow> int list" where
  "consecutive_diffs (a # b # rest) = (b - a) # consecutive_diffs (b # rest)"
| "consecutive_diffs _ = []"

text \<open>
  The sizing that \<^verbatim>\<open>test_grid_sizing.py\<close> calls the correct one ("New approach (correct -
  calculate actual grid spacing)"): with more than one distinct position the minimum
  difference of consecutive sorted positions, otherwise the first tile's own dimension.
  The test indexes \<^verbatim>\<open>tile_metadata[0]\<close>, which raises on an empty list.
\<close>

definition spacing_cell_size :: "tile_meta list \<Rightarrow> error + (int \<times> int)" where
  "spacing_cell_size tile_metadata =
     (case tile_metadata of
        [] \<Rightarrow> Inl IndexError
      | m # ms \<Rightarrow>
          (let x_positions = sorted_set (map tile_x tile_metadata);
               y_positions = sorted_set (map tile_y tile_metadata);
               w = (case consecutive_diffs x_positions of
                      [] \<Rightarrow> tile_width m
                    | d # ds \<Rightarrow> py_min d ds);
               h = (case consecutive_diffs y_positions of
                      [] \<Rightarrow> tile_height m
                    | d # ds \<Rightarrow> py_min d ds)
           in Inr (w, h)))"

text \<open>Two tiles of size 256 extracted with overlap 128 from one row of a raster.\<close>

definition overlap_tile :: "int \<Rightarrow> int \<Rightarrow> tile_meta" where
  "overlap_tile x c =
     \<lparr> tile_x = x, tile_y = 0, tile_width = 256, tile_height = 256, row = 0, col = c,
       win = \<lparr> col_off = x, row_off = 0, win_width = 256, win_height = 256 \<rparr>,
       transform = \<lparr> af_a = 1, af_b = 0, af_c = real_of_int x,
                     af_d = 0, af_e = -1, af_f = 0 \<rparr>,
       source_file = ''raster.tif'' \<rparr>"

section \<open>Prototype file names\<close>

text \<open>
  Python's \<^verbatim>\<open>s.replace(old, new)\<close>: every non-overlapping occurrence of \<open>old\<close>, found
  from the left, is replaced. With an empty \<open>old\<close> Python puts \<open>new\<close> before every
  character and at the end.
\<close>

function str_replace :: "string \<Rightarrow> string \<Rightarrow> string \<Rightarrow> string" where
  "str_replace old new s =
     (if old = [] then new @ concat (map (\<lambda>c. c # new) s)
      else if s = [] then []
      else if take (length old) s = old
        then new @ str_replace old new (drop (length old) s)
        else hd s # str_replace old new (tl s))"
  by pat_completeness auto
termination
  by (relation "measure (\<lambda>(old, new, s). length s)") auto

text \<open>
  \<^verbatim>\<open>create_query_vectors_auto\<close>:
  \<^verbatim>\<open>safe_class_name = class_name.replace(';', '_').replace('/', '_').replace(' ', '_')\<close>
  and the file is \<^verbatim>\<open>output_dir / f"query_{safe_class_name}.npy"\<close>.
\<close>

definition safe_class_name :: "string \<Rightarrow> string" where
  "safe_class_name class_name =
     str_replace '' '' ''_'' (str_replace ''/'' ''_'' (str_replace '';'' ''_'' class_name))"

definition query_file_name :: "string \<Rightarrow> string" where
  "query_file_name class_name = ''query_'' @ safe_class_name class_name @ ''.npy''"

text \<open>
  \<^verbatim>\<open>Path.stem\<close> on a file name: the name without its last suffix, where the last dot
  starts a suffix only if it is neither the first nor the last character.
\<close>

definition path_stem :: "string \<Rightarrow> string" where
  "path_stem name =
     (if CHR ''.'' \<in> set name
      then (let i = length name - 1 - length (takeWhile (\<lambda>c. c \<noteq> CHR ''.'') (rev name))
            in if 0 < i \<and> i < length name - 1 then take i name else name)
      else name)"

text \<open>
  \<^verbatim>\<open>run_process\<close>, for a file and for each file of a directory:
  \<^verbatim>\<open>class_name = npy_file.stem.replace('query_', '').replace('_', ';')\<close>.
\<close>

definition class_name_of_file :: "string \<Rightarrow> string" where
  "class_name_of_file file_name =
     str_replace ''_'' '';'' (str_replace ''query_'' '''' (path_stem file_name))"

section \<open>Tile extraction\<close>

text \<open>
  What \<^verbatim>\<open>extract_geotiff_tiles\<close> reads of the opened raster: its size, its number of
  bands, the validity mask of band 1 (\<open>0\<close> is masked) by pixel column and row, its affine
  transform and its path. The pixel values are left out: their conversion to bytes has no
  branch that skips a tile or raises.
\<close>

record raster =
  r_width :: int
  r_height :: int
  r_count :: nat
  r_mask :: "int \<Rightarrow> int \<Rightarrow> nat"
  r_transform :: affine
  r_path :: string

text \<open>Python's \<^verbatim>\<open>range(0, stop, step)\<close> for a step that is not zero.\<close>

definition py_range0 :: "int \<Rightarrow> int \<Rightarrow> int list" where
  "py_range0 stop step =
     (if 0 < step then map (\<lambda>k. int k * step) [0 ..< nat ((stop + step - 1) div step)]
      else map (\<lambda>k. int k * step) [0 ..< nat ((stop + step + 1) div step)])"

text \<open>\<^verbatim>\<open>src.window_transform(window)\<close>: the raster's transform after a translation.\<close>

definition window_transform :: "affine \<Rightarrow> window \<Rightarrow> affine" where
  "window_transform t w =
     t \<lparr> af_c := af_a t * real_of_int (col_off w) + af_b t * real_of_int (row_off w) + af_c t,
         af_f := af_d t * real_of_int (col_off w) + af_e t * real_of_int (row_off w) + af_f t \<rparr>"

text \<open>\<^verbatim>\<open>np.any(mask == 0)\<close> for the mask read through the window at \<open>(x, y)\<close>.\<close>

definition any_masked :: "raster \<Rightarrow> int \<Rightarrow> int \<Rightarrow> int \<Rightarrow> int \<Rightarrow> bool" where
  "any_masked src x y w h =
     list_ex (\<lambda>j. list_ex (\<lambda>i. r_mask src i j = 0) [x .. x + w - 1]) [y .. y + h - 1]"

text \<open>
  The body of the inner loop for the candidate window at \<open>(x, y)\<close>, with the loop counters
  \<open>row\<close> and \<open>col\<close>: \<open>Inr None\<close> is a \<^verbatim>\<open>continue\<close>, \<open>Inr (Some m)\<close> an emitted tile.
  \<^verbatim>\<open>Window\<close> rejects a negative width or height. \<^verbatim>\<open>tile_data[:3]\<close> has
  \<open>min 3 (r_count src)\<close> bands and the last check skips the tile unless that is 3.
\<close>

definition tile_at :: "raster \<Rightarrow> int \<Rightarrow> int \<Rightarrow> int \<Rightarrow> int \<Rightarrow> int \<Rightarrow> error + tile_meta option" where
  "tile_at src tile_size rw cl y x =
     (let tw = min tile_size (r_width src - x);
          th = min tile_size (r_height src - y)
      in if tw < tile_size \<or> th < tile_size then Inr None
         else if tw < 0 \<or> th < 0 then Inl WindowError
         else let w = \<lparr> col_off = x, row_off = y, win_width = tw, win_height = th \<rparr>
              in if any_masked src x y tw th then Inr None
                 else if min 3 (r_count src) \<noteq> 3 then Inr None
                 else Inr (Some \<lparr> tile_x = x, tile_y = y, tile_width = tw, tile_height = th,
                                  row = rw, col = cl, win = w,
                                  transform = window_transform (r_transform src) w,
                                  source_file = r_path src \<rparr>))"

text \<open>Running loop bodies in order: the first exception ends the loop.\<close>

fun collect :: "(error + 'a option) list \<Rightarrow> error + 'a list" where
  "collect [] = Inr []"
| "collect (Inl e # rest) = Inl e"
| "collect (Inr r # rest) =
     (case collect rest of
        Inl e \<Rightarrow> Inl e
      | Inr out \<Rightarrow> Inr ((case r of None \<Rightarrow> [] | Some t \<Rightarrow> [t]) @ out))"

text \<open>
  \<^verbatim>\<open>extract_geotiff_tiles\<close>. \<^verbatim>\<open>tiles_x = (width + tile_size - 1) // tile_size\<close> divides by
  the tile size before the loops; both loops step by \<^verbatim>\<open>tile_size - overlap\<close>; \<open>row\<close> counts
  the rows and \<open>col\<close> every candidate of a row, skipped or not.
\<close>

definition candidates :: "raster \<Rightarrow> int \<Rightarrow> int \<Rightarrow> (int \<times> int \<times> int \<times> int) list" where
  "candidates src tile_size overlap =
     concat (map (\<lambda>(rw, y). map (\<lambda>(cl, x). (int rw, int cl, y, x))
                                  (enumerate 0 (py_range0 (r_width src) (tile_size - overlap))))
                 (enumerate 0 (py_range0 (r_height src) (tile_size - overlap))))"

definition extract_geotiff_tiles :: "raster \<Rightarrow> int \<Rightarrow> int \<Rightarrow> error + tile_meta list" where
  "extract_geotiff_tiles src tile_size overlap =
     (if tile_size = 0 then Inl ZeroDivisionError
      else if tile_size - overlap = 0 then Inl RangeStepZero
      else collect (map (\<lambda>(rw, cl, y, x). tile_at src tile_size rw cl y x)
                        (candidates src tile_size overlap)))"

text \<open>A 5 by 3 raster with three bands whose pixel at column 2, row 2 is masked.\<close>

definition small_raster :: raster where
  "small_raster =
     \<lparr> r_width = 5, r_height = 3, r_count = 3,
       r_mask = (\<lambda>x y. if x = 2 \<and> y = 2 then 0 else 255),
       r_transform = \<lparr> af_a = 1, af_b = 0, af_c = 0, af_d = 0, af_e = -1, af_f = 0 \<rparr>,
       r_path = ''raster.tif'' \<rparr>"

text \<open>A 6 by 4 raster with three bands and no masked pixel.\<close>

definition strip_raster :: raster where
  "strip_raster =
     \<lparr> r_width = 6, r_height = 4, r_count = 3,
       r_mask = (\<lambda>x y. 255),
       r_transform = \<lparr> af_a = 1, af_b = 0, af_c = 0, af_d = 0, af_e = -1, af_f = 0 \<rparr>,
       r_path = ''raster.tif'' \<rparr>"

section \<open>Floating-point values and vectors\<close>

text \<open>
  A floating-point value is a real number, an infinity or NaN. Rounding, overflow and the
  sign of zero are not modelled: arithmetic on numbers is exact, and only the special
  values that exact arithmetic can produce (division by zero, the square root of a
  negative number) and their propagation are kept.
\<close>

datatype fnum = Fin real | PInf | NInf | NaN

fun fadd :: "fnum \<Rightarrow> fnum \<Rightarrow> fnum" where
  "fadd NaN _ = NaN"
| "fadd _ NaN = NaN"
| "fadd (Fin a) (Fin b) = Fin (a + b)"
| "fadd PInf NInf = NaN"
| "fadd NInf PInf = NaN"
| "fadd PInf _ = PInf"
| "fadd _ PInf = PInf"
| "fadd NInf _ = NInf"
| "fadd _ NInf = NInf"

text \<open>The infinity with the sign of \<open>a\<close> times a positive infinity; \<open>0 * inf\<close> is NaN.\<close>

definition signed_inf :: "real \<Rightarrow> fnum" where
  "signed_inf a = (if a = 0 then NaN else if 0 < a then PInf else NInf)"

fun fneg :: "fnum \<Rightarrow> fnum" where
  "fneg (Fin a) = Fin (- a)"
| "fneg PInf = NInf"
| "fneg NInf = PInf"
| "fneg NaN = NaN"

fun fmul :: "fnum \<Rightarrow> fnum \<Rightarrow> fnum" where
  "fmul NaN _ = NaN"
| "fmul _ NaN = NaN"
| "fmul (Fin a) (Fin b) = Fin (a * b)"
| "fmul (Fin a) PInf = signed_inf a"
| "fmul (Fin a) NInf = fneg (signed_inf a)"
| "fmul PInf (Fin b) = signed_inf b"
| "fmul NInf (Fin b) = fneg (signed_inf b)"
| "fmul PInf PInf = PInf"
| "fmul NInf NInf = PInf"
| "fmul PInf NInf = NInf"
| "fmul NInf PInf = NInf"

text \<open>
  Division of floats raises nothing: \<open>0 / 0\<close> is NaN and \<open>a / 0\<close> an infinity. The zero
  divisors of this program are norms, which are \<open>+0\<close>.
\<close>

fun fdiv :: "fnum \<Rightarrow> fnum \<Rightarrow> fnum" where
  "fdiv NaN _ = NaN"
| "fdiv _ NaN = NaN"
| "fdiv (Fin a) (Fin b) = (if b = 0 then signed_inf a else Fin (a / b))"
| "fdiv (Fin a) PInf = Fin 0"
| "fdiv (Fin a) NInf = Fin 0"
| "fdiv PInf (Fin b) = (if 0 \<le> b then PInf else NInf)"
| "fdiv NInf (Fin b) = (if 0 \<le> b then NInf else PInf)"
| "fdiv PInf PInf = NaN"
| "fdiv PInf NInf = NaN"
| "fdiv NInf PInf = NaN"
| "fdiv NInf NInf = NaN"

fun fsqrt :: "fnum \<Rightarrow> fnum" where
  "fsqrt (Fin a) = (if a < 0 then NaN else Fin (sqrt a))"
| "fsqrt PInf = PInf"
| "fsqrt NInf = NaN"
| "fsqrt NaN = NaN"

text \<open>
  The comparison of \<^verbatim>\<open>torch.max\<close> and \<^verbatim>\<open>torch.argmax\<close>: \<open>fgt a b\<close> says that \<open>a\<close> replaces
  \<open>b\<close> as the running maximum. NaN replaces every number and nothing replaces NaN.
\<close>

fun fgt :: "fnum \<Rightarrow> fnum \<Rightarrow> bool" where
  "fgt _ NaN = False"
| "fgt NaN _ = True"
| "fgt (Fin a) (Fin b) = (b < a)"
| "fgt PInf PInf = False"
| "fgt PInf _ = True"
| "fgt _ PInf = False"
| "fgt NInf _ = False"
| "fgt (Fin a) NInf = True"

definition fsum :: "fnum list \<Rightarrow> fnum" where
  "fsum xs = foldr fadd xs (Fin 0)"

text \<open>\<^verbatim>\<open>norm(dim=-1)\<close> and \<^verbatim>\<open>np.linalg.norm\<close> of one row: the Euclidean norm.\<close>

definition linalg_norm :: "fnum list \<Rightarrow> fnum" where
  "linalg_norm v = fsqrt (fsum (map (\<lambda>x. fmul x x) v))"

text \<open>\<^verbatim>\<open>v / v.norm(dim=-1, keepdim=True)\<close> for one row \<open>v\<close>.\<close>

definition l2_normalize :: "fnum list \<Rightarrow> fnum list" where
  "l2_normalize v = map (\<lambda>x. fdiv x (linalg_norm v)) v"

text \<open>One entry of a matrix product: the dot product of two rows of the same length.\<close>

definition fdot :: "fnum list \<Rightarrow> fnum list \<Rightarrow> fnum" where
  "fdot u v = fsum (map (\<lambda>(x, y). fmul x y) (zip u v))"

text \<open>The same on real vectors, for stating results.\<close>

definition rnorm :: "real list \<Rightarrow> real" where
  "rnorm v = sqrt (\<Sum>x\<leftarrow>v. x * x)"

definition runit :: "real list \<Rightarrow> real list" where
  "runit v = map (\<lambda>x. x / rnorm v) v"

definition rdot :: "real list \<Rightarrow> real list \<Rightarrow> real" where
  "rdot u v = (\<Sum>(x, y)\<leftarrow>zip u v. x * y)"

section \<open>Batched embedding\<close>

text \<open>
  A preprocessed image is a tensor of shape 3 x 224 x 224, kept as the list of its entries;
  \<^verbatim>\<open>torch.zeros(3, 224, 224)\<close> is the placeholder for a tile that failed to preprocess.
\<close>

type_synonym tensor = "real list"

definition torch_zeros :: tensor where
  "torch_zeros = replicate (3 * 224 * 224) 0"

text \<open>
  The body of the inner loop: \<open>preprocess\<close> stands for
  \<^verbatim>\<open>preprocess(Image.fromarray(tile_data))\<close>, with \<open>None\<close> when either call raises. Both
  branches append the tile's metadata.
\<close>

definition preprocess_batch ::
  "('img \<Rightarrow> tensor option) \<Rightarrow> ('img \<times> 'meta) list \<Rightarrow> tensor list \<times> 'meta list" where
  "preprocess_batch preprocess batch_tiles =
     (map (\<lambda>(tile_data, metadata).
             case preprocess tile_data of Some t \<Rightarrow> t | None \<Rightarrow> torch_zeros) batch_tiles,
      map snd batch_tiles)"

text \<open>
  \<^verbatim>\<open>np.vstack\<close> of the per-batch arrays: the rows of all blocks, which must have one width.
\<close>

definition np_vstack :: "fnum list list list \<Rightarrow> error + fnum list list" where
  "np_vstack blocks =
     (let rows = concat blocks
      in if list_all (\<lambda>r. length r = length (hd rows)) rows then Inr rows
         else Inl (ValueError ''all the input array dimensions except for the concatenation axis must match exactly''))"

text \<open>
  \<^verbatim>\<open>process_tiles_in_batches\<close>. \<open>encode_image\<close> is \<^verbatim>\<open>model.encode_image\<close> on a stacked
  batch and returns one feature row per input. \<^verbatim>\<open>total_batches\<close> divides by the batch
  size; the batches are \<^verbatim>\<open>tiles[i:i + batch_size]\<close> for \<open>i\<close> in
  \<^verbatim>\<open>range(0, len(tiles), batch_size)\<close>; every feature row is divided by its norm. No
  batch is empty, so \<^verbatim>\<open>if batch_tensors\<close> always holds.
\<close>

definition process_tiles_in_batches ::
  "('img \<times> 'meta) list \<Rightarrow> (tensor list \<Rightarrow> real list list) \<Rightarrow> ('img \<Rightarrow> tensor option) \<Rightarrow> int
     \<Rightarrow> error + (fnum list list \<times> 'meta list)" where
  "process_tiles_in_batches tiles encode_image preprocess batch_size =
     (if batch_size = 0 then Inl ZeroDivisionError
      else let batches = map (\<lambda>i. take (nat batch_size) (drop (nat i) tiles))
                             (py_range0 (int (length tiles)) batch_size);
               done = map (preprocess_batch preprocess) batches;
               tile_metadata = concat (map snd done);
               tile_embeddings =
                 map (\<lambda>(batch_tensors, ms).
                        map (\<lambda>features. l2_normalize (map Fin features))
                            (encode_image batch_tensors)) done
           in case (if tile_embeddings = [] then Inr [] else np_vstack tile_embeddings) of
                Inl e \<Rightarrow> Inl e
              | Inr embeddings \<Rightarrow> Inr (embeddings, tile_metadata))"

text \<open>
  A model that embeds every image of a batch on its own, by \<open>enc\<close>, into vectors of
  \<open>d\<close> components.
\<close>

definition itemwise :: "(tensor list \<Rightarrow> real list list) \<Rightarrow> (tensor \<Rightarrow> real list) \<Rightarrow> nat \<Rightarrow> bool" where
  "itemwise encode_image enc d \<longleftrightarrow>
     (\<forall>batch. encode_image batch = map enc batch) \<and> (\<forall>t. length (enc t) = d)"

text \<open>
  For stating results: the embedding of one tile taken alone, the normalised features of
  its preprocessed image or of the placeholder.
\<close>

definition embed_tile :: "(tensor \<Rightarrow> real list) \<Rightarrow> ('img \<Rightarrow> tensor option) \<Rightarrow> 'img \<Rightarrow> fnum list" where
  "embed_tile enc preprocess tile_data =
     l2_normalize (map Fin (enc (case preprocess tile_data of
                                   Some t \<Rightarrow> t | None \<Rightarrow> torch_zeros)))"

text \<open>
  A small model for examples, with two features. The placeholder tensor is embedded as
  \<open>[3, 4]\<close>; image 0 fails to preprocess, image 3 is embedded as \<open>[0, 4]\<close>.
\<close>

definition toy_enc :: "tensor \<Rightarrow> real list" where
  "toy_enc t = [hd t + 3, 4]"

definition toy_preprocess :: "nat \<Rightarrow> tensor option" where
  "toy_preprocess img = (if img = 0 then None else Some [- real img])"

text \<open>A model whose features for the placeholder tensor are all zero.\<close>

definition null_enc :: "tensor \<Rightarrow> real list" where
  "null_enc t = [hd t, 0]"

section \<open>Prototype builder\<close>

text \<open>
  \<^verbatim>\<open>np.stack\<close> of the embeddings of a class into a matrix: it needs at least one row and
  rows of one length.
\<close>

definition np_stack :: "real list list \<Rightarrow> error + real list list" where
  "np_stack rows =
     (if rows = [] then Inl (ValueError ''need at least one array to stack'')
      else if list_all (\<lambda>r. length r = length (hd rows)) rows then Inr rows
      else Inl (ValueError ''all input arrays must have the same shape''))"

text \<open>\<^verbatim>\<open>np.mean(m, axis=0)\<close> of a matrix with at least one row: the sum of each column
  divided by the number of rows.\<close>

definition np_mean_axis0 :: "fnum list list \<Rightarrow> fnum list" where
  "np_mean_axis0 rows =
     map (\<lambda>j. fdiv (fsum (map (\<lambda>r. r ! j) rows)) (Fin (real (length rows))))
         [0 ..< length (hd rows)]"

text \<open>
  \<^verbatim>\<open>np.median\<close> of a non-empty list of numbers: the middle of the sorted list, or the
  mean of the two middle entries when their number is even.
\<close>

definition np_median :: "real list \<Rightarrow> real" where
  "np_median xs =
     (let s = sort xs; n = length xs
      in if odd n then s ! (n div 2) else (s ! (n div 2 - 1) + s ! (n div 2)) / 2)"

definition np_median_axis0 :: "real list list \<Rightarrow> real list" where
  "np_median_axis0 rows = map (\<lambda>j. np_median (map (\<lambda>r. r ! j) rows)) [0 ..< length (hd rows)]"

text \<open>
  The aggregation that \<^verbatim>\<open>create_query_vector\<close> and \<^verbatim>\<open>create_query_vectors_auto\<close> both
  carry out on the stacked embeddings of one class.
\<close>

definition query_vector_of :: "string \<Rightarrow> real list list \<Rightarrow> error + fnum list" where
  "query_vector_of method embeddings =
     (if method = ''mean'' then Inr (np_mean_axis0 (map (map Fin) embeddings))
      else if method = ''median'' then Inr (map Fin (np_median_axis0 embeddings))
      else if method = ''centroid'' then
        (let normalized_embeddings = map (\<lambda>e. l2_normalize (map Fin e)) embeddings;
             query_vector = np_mean_axis0 normalized_embeddings
         in Inr (l2_normalize query_vector))
      else Inl (ValueError ''Unknown method''))"

text \<open>
  \<^verbatim>\<open>create_query_vector\<close> on the loaded table of embeddings, a list of rows
  \<open>(class_name, image_embedding)\<close>: the rows of the class are selected, a class without
  rows is an error, and the rows are stacked and aggregated.
\<close>

definition create_query_vector ::
  "(string \<times> real list) list \<Rightarrow> string \<Rightarrow> string \<Rightarrow> error + fnum list" where
  "create_query_vector df_embeddings class_name method =
     (let class_embeddings = filter (\<lambda>(c, e). c = class_name) df_embeddings
      in if class_embeddings = []
         then Inl (ValueError ''No embeddings found for class'')
         else case np_stack (map snd class_embeddings) of
                Inl e \<Rightarrow> Inl e
              | Inr embeddings \<Rightarrow> query_vector_of method embeddings)"

text \<open>The three embeddings \<open>[1, 0]\<close>, \<open>[0, 1]\<close>, \<open>[1, 1]\<close> of one class \<open>c\<close>.\<close>

definition toy_embeddings_table :: "(string \<times> real list) list" where
  "toy_embeddings_table = [(''c'', [1, 0]), (''c'', [0, 1]), (''c'', [1, 1])]"

text \<open>For stating results: the mean of the columns of a real matrix.\<close>

definition rmean_axis0 :: "real list list \<Rightarrow> real list" where
  "rmean_axis0 rows =
     map (\<lambda>j. (\<Sum>r\<leftarrow>rows. r ! j) / real (length rows)) [0 ..< length (hd rows)]"

section \<open>Nearest-prototype classification\<close>

text \<open>A row of the results table of \<^verbatim>\<open>run_process\<close>.\<close>

record result =
  tile_id :: nat
  res_source_file :: string
  res_tile_x :: int
  res_tile_y :: int
  res_tile_width :: int
  res_tile_height :: int
  res_row :: int
  res_col :: int
  best_class :: string
  query_similarity :: fnum

text \<open>\<^verbatim>\<open>torch.stack\<close> of the query vectors: at least one tensor, all of one shape.\<close>

definition torch_stack :: "fnum list list \<Rightarrow> error + fnum list list" where
  "torch_stack vs =
     (if vs = [] then Inl TorchError
      else if list_all (\<lambda>v. length v = length (hd vs)) vs then Inr vs
      else Inl TorchError)"

text \<open>
  \<^verbatim>\<open>argmax\<close> and \<^verbatim>\<open>max\<close> along a row: a scan from the left that keeps the index and value
  of the running maximum and replaces it only by a value that is greater, so the first of
  several maximal entries is kept.
\<close>

fun max_from :: "nat \<Rightarrow> fnum \<Rightarrow> nat \<Rightarrow> fnum list \<Rightarrow> nat \<times> fnum" where
  "max_from bi bv i [] = (bi, bv)"
| "max_from bi bv i (v # vs) =
     (if fgt v bv then max_from i v (Suc i) vs else max_from bi bv (Suc i) vs)"

definition torch_max :: "fnum list \<Rightarrow> nat \<times> fnum" where
  "torch_max r = max_from 0 (hd r) 1 (tl r)"

text \<open>
  The classification part of \<^verbatim>\<open>run_process\<close>, from the loaded query vectors (the
  dictionary \<^verbatim>\<open>query_vectors\<close> in insertion order), the tile embeddings and the tile
  metadata to the list \<^verbatim>\<open>results\<close>. Prototypes and tile embeddings are divided by their
  norms, \<^verbatim>\<open>sims = tile_feats @ proto_matrix.T\<close>, and every tile index gets one entry; the
  parameter \<^verbatim>\<open>top_k\<close> of \<^verbatim>\<open>run_process\<close> is never read. An empty \<^verbatim>\<open>tile_embeddings\<close> is the vector
  \<^verbatim>\<open>np.array([])\<close>, which the matrix product rejects, as it does tile embeddings whose
  width differs from the prototypes'.
\<close>

definition run_process_classify ::
  "(string \<times> fnum list) list \<Rightarrow> fnum list list \<Rightarrow> tile_meta list \<Rightarrow> int
     \<Rightarrow> error + result list" where
  "run_process_classify query_vectors tile_embeddings tile_metadata top_k =
     (let query_class_names = map fst query_vectors
      in case torch_stack (map snd query_vectors) of
           Inl e \<Rightarrow> Inl e
         | Inr stacked \<Rightarrow>
             (let proto_matrix = map l2_normalize stacked
              in if tile_embeddings = [] \<or>
                    \<not> list_all (\<lambda>t. length t = length (hd proto_matrix)) tile_embeddings
                 then Inl TorchError
                 else let tile_feats = map l2_normalize tile_embeddings;
                          sims = map (\<lambda>t. map (\<lambda>p. fdot t p) proto_matrix) tile_feats;
                          best = map torch_max sims
                      in if length tile_metadata < length tile_embeddings then Inl IndexError
                         else Inr (map (\<lambda>tile_idx.
                                let best_query_idx = fst (best ! tile_idx);
                                    tile_similarity = snd (best ! tile_idx);
                                    tile_meta = tile_metadata ! tile_idx
                                in \<lparr> tile_id = tile_idx,
                                     res_source_file = source_file tile_meta,
                                     res_tile_x = tile_x tile_meta,
                                     res_tile_y = tile_y tile_meta,
                                     res_tile_width = tile_width tile_meta,
                                     res_tile_height = tile_height tile_meta,
                                     res_row = row tile_meta,
                                     res_col = col tile_meta,
                                     best_class = query_class_names ! best_query_idx,
                                     query_similarity = tile_similarity \<rparr>)
                              [0 ..< length tile_embeddings])))"

text \<open>For stating results: the cosine similarity the classification computes for a tile
  embedding and a stored prototype.\<close>

definition cosine :: "fnum list \<Rightarrow> fnum list \<Rightarrow> fnum" where
  "cosine t p = fdot (l2_normalize t) (l2_normalize p)"

text \<open>Two prototypes, one of them not of unit length, and two tile embeddings.\<close>

definition toy_query_vectors :: "(string \<times> real list) list" where
  "toy_query_vectors = [(''sand'', [1, 0]), (''rock'', [0, 2])]"

definition toy_tile_embeddings :: "real list list" where
  "toy_tile_embeddings = [[3 / 5, 4 / 5], [1, 0]]"

definition toy_tile_metadata :: "tile_meta list" where
  "toy_tile_metadata = [overlap_tile 0 0, overlap_tile 128 1]"

section \<open>Single-precision arithmetic\<close>

text \<open>
  The tensors of the classification in \<^verbatim>\<open>run_process\<close> are \<^verbatim>\<open>torch.float32\<close>. This section
  models that arithmetic: every operation returns the single-precision number nearest to
  its exact result.
\<close>

text \<open>Two to the power of an integer \<open>k\<close>.\<close>

definition pow2 :: "int \<Rightarrow> real" where
  "pow2 k = (if 0 \<le> k then 2 ^ nat k else 1 / 2 ^ nat (- k))"

text \<open>Rounding to the nearest integer, a tie to the even one.\<close>

definition round_half_even :: "real \<Rightarrow> int" where
  "round_half_even q =
     (let f = \<lfloor>q\<rfloor>; d = q - real_of_int f
      in if d < 1 / 2 then f else if 1 / 2 < d then f + 1 else if even f then f else f + 1)"

text \<open>
  The single-precision number nearest to a real: 24 significant bits, the exponent of the
  leading bit at least \<open>-126\<close> (below that the spacing stays \<open>pow2 (-149)\<close>), and an infinity
  when the rounded magnitude reaches \<open>pow2 128\<close>.
\<close>

definition f32 :: "real \<Rightarrow> fnum" where
  "f32 x =
     (if x = 0 then Fin 0
      else let e = max \<lfloor>log 2 \<bar>x\<bar>\<rfloor> (- 126);
               ulp = pow2 (e - 23);
               r = real_of_int (round_half_even (x / ulp)) * ulp
           in if pow2 128 \<le> \<bar>r\<bar> then (if 0 < x then PInf else NInf) else Fin r)"

fun f32_round :: "fnum \<Rightarrow> fnum" where
  "f32_round (Fin x) = f32 x"
| "f32_round PInf = PInf"
| "f32_round NInf = NInf"
| "f32_round NaN = NaN"

text \<open>The arithmetic operations on floating-point values, each followed by rounding.\<close>

definition fadd32 :: "fnum \<Rightarrow> fnum \<Rightarrow> fnum" where
  "fadd32 a b = f32_round (fadd a b)"

definition fmul32 :: "fnum \<Rightarrow> fnum \<Rightarrow> fnum" where
  "fmul32 a b = f32_round (fmul a b)"

definition fdiv32 :: "fnum \<Rightarrow> fnum \<Rightarrow> fnum" where
  "fdiv32 a b = f32_round (fdiv a b)"

definition fsqrt32 :: "fnum \<Rightarrow> fnum" where
  "fsqrt32 a = f32_round (fsqrt a)"

text \<open>
  Norm, normalisation and dot product of rows as before, with every multiplication,
  addition, square root and division rounded; sums are accumulated from the left.
\<close>

definition linalg_norm32 :: "fnum list \<Rightarrow> fnum" where
  "linalg_norm32 v = fsqrt32 (foldl (\<lambda>s x. fadd32 s (fmul32 x x)) (Fin 0) v)"

definition l2_normalize32 :: "fnum list \<Rightarrow> fnum list" where
  "l2_normalize32 v = map (\<lambda>x. fdiv32 x (linalg_norm32 v)) v"

definition fdot32 :: "fnum list \<Rightarrow> fnum list \<Rightarrow> fnum" where
  "fdot32 u v = foldl (\<lambda>s (x, y). fadd32 s (fmul32 x y)) (Fin 0) (zip u v)"

text \<open>
  The classification part of \<^verbatim>\<open>run_process\<close> once more, in single precision: the same
  steps as \<open>run_process_classify\<close> with the rounded normalisation and dot product.
\<close>

definition run_process_classify32 ::
  "(string \<times> fnum list) list \<Rightarrow> fnum list list \<Rightarrow> tile_meta list \<Rightarrow> int
     \<Rightarrow> error + result list" where
  "run_process_classify32 query_vectors tile_embeddings tile_metadata top_k =
     (let query_class_names = map fst query_vectors
      in case torch_stack (map snd query_vectors) of
           Inl e \<Rightarrow> Inl e
         | Inr stacked \<Rightarrow>
             (let proto_matrix = map l2_normalize32 stacked
              in if tile_embeddings = [] \<or>
                    \<not> list_all (\<lambda>t. length t = length (hd proto_matrix)) tile_embeddings
                 then Inl TorchError
                 else let tile_feats = map l2_normalize32 tile_embeddings;
                          sims = map (\<lambda>t. map (\<lambda>p. fdot32 t p) proto_matrix) tile_feats;
                          best = map torch_max sims
                      in if length tile_metadata < length tile_embeddings then Inl IndexError
                         else Inr (map (\<lambda>tile_idx.
                                let best_query_idx = fst (best ! tile_idx);
                                    tile_similarity = snd (best ! tile_idx);
                                    tile_meta = tile_metadata ! tile_idx
                                in \<lparr> tile_id = tile_idx,
                                     res_source_file = source_file tile_meta,
                                     res_tile_x = tile_x tile_meta,
                                     res_tile_y = tile_y tile_meta,
                                     res_tile_width = tile_width tile_meta,
                                     res_tile_height = tile_height tile_meta,
                                     res_row = row tile_meta,
                                     res_col = col tile_meta,
                                     best_class = query_class_names ! best_query_idx,
                                     query_similarity = tile_similarity \<rparr>)
                              [0 ..< length tile_embeddings])))"

text \<open>
  The single-precision unit vector of the features \<open>[1, 4]\<close>, as the embedder's
  normalisation produces it.
\<close>

definition toy_unit32 :: "fnum list" where
  "toy_unit32 = [Fin (16276291 / 67108864), Fin (16276291 / 16777216)]"

section \<open>Class colours\<close>

text \<open>
  Floating-point numbers are modelled by the reals: rounding is not part of the model.
  Python's \<^verbatim>\<open>int(x)\<close> on a float truncates towards zero.
\<close>

definition py_int :: "real \<Rightarrow> int" where
  "py_int x = (if 0 \<le> x then \<lfloor>x\<rfloor> else \<lceil>x\<rceil>)"

text \<open>\<^verbatim>\<open>colorsys.hsv_to_rgb\<close> of the standard library.\<close>

definition hsv_to_rgb :: "real \<Rightarrow> real \<Rightarrow> real \<Rightarrow> real \<times> real \<times> real" where
  "hsv_to_rgb h s v =
     (if s = 0 then (v, v, v)
      else let i = py_int (h * 6);
               f = h * 6 - real_of_int i;
               p = v * (1 - s);
               q = v * (1 - s * f);
               t = v * (1 - s * (1 - f));
               i = i mod 6
           in if i = 0 then (v, t, p)
              else if i = 1 then (q, v, p)
              else if i = 2 then (p, v, t)
              else if i = 3 then (p, q, v)
              else if i = 4 then (t, p, v)
              else (v, p, q))"

text \<open>
  \<^verbatim>\<open>generate_color_palette\<close> inside \<^verbatim>\<open>_generate_class_colors\<close>: for \<open>i\<close> in
  \<^verbatim>\<open>range(n_colors)\<close> the hue \<^verbatim>\<open>i / n_colors\<close> at saturation 0.8 and value 0.9, each
  channel converted by \<^verbatim>\<open>int(c * 255)\<close>.
\<close>

definition generate_color_palette :: "nat \<Rightarrow> (int \<times> int \<times> int) list" where
  "generate_color_palette n_colors =
     map (\<lambda>i. case hsv_to_rgb (real i / real n_colors) (8 / 10) (9 / 10) of
                 (r, g, b) \<Rightarrow> (py_int (r * 255), py_int (g * 255), py_int (b * 255)))
         [0 ..< n_colors]"

text \<open>\<^verbatim>\<open>dict(pairs)\<close>: a later pair with the same key replaces an earlier one.\<close>

definition py_dict :: "('k \<times> 'v) list \<Rightarrow> ('k \<rightharpoonup> 'v)" where
  "py_dict kvs = map_of (rev kvs)"

text \<open>
  \<^verbatim>\<open>_generate_class_colors\<close>: \<^verbatim>\<open>dict(zip(unique_classes, class_colors))\<close>. The
  \<^verbatim>\<open>except\<close> branch with the predefined colours is taken only if the standard
  library's \<^verbatim>\<open>colorsys\<close> cannot be imported, and is left out.
\<close>

definition generate_class_colors :: "string list \<Rightarrow> (string \<rightharpoonup> int \<times> int \<times> int)" where
  "generate_class_colors unique_classes =
     py_dict (zip unique_classes (generate_color_palette (length unique_classes)))"

text \<open>
  \<^verbatim>\<open>unique_classes = sorted(list(set(result['best_class'] for result in results)))\<close>.
  Python compares strings character by character by code, a proper prefix first, as the
  lexicographic order on \<open>char list\<close> does.
\<close>

definition unique_classes :: "result list \<Rightarrow> string list" where
  "unique_classes results = sort (remdups (map best_class results))"

text \<open>
  \<^verbatim>\<open>_create_grid_shapefile\<close> without a colour table (\<^verbatim>\<open>color_map\<close> is \<^verbatim>\<open>None\<close> or empty):
  \<^verbatim>\<open>class_to_color = _generate_class_colors(unique_classes)\<close>.
\<close>

definition class_to_color :: "result list \<Rightarrow> (string \<rightharpoonup> int \<times> int \<times> int)" where
  "class_to_color results = generate_class_colors (unique_classes results)"

text \<open>A result for tile \<open>i\<close> with class \<open>c\<close>, for examples.\<close>

definition toy_result :: "nat \<Rightarrow> string \<Rightarrow> result" where
  "toy_result i c =
     \<lparr> tile_id = i, res_source_file = ''raster.tif'', res_tile_x = 256 * int i, res_tile_y = 0,
       res_tile_width = 256, res_tile_height = 256, res_row = 0, res_col = int i,
       best_class = c, query_similarity = Fin (9 / 10) \<rparr>"

section \<open>Results about the grid cell size\<close>

text \<open>
  C1. The claim: with at least two distinct pixel x-positions the cell width is the minimum
  difference of consecutive sorted distinct x-positions, not the tiles' pixel width. The
  code takes the minimum of the tiles' own pixel widths instead. Tiles of size 4 extracted
  with overlap 2 from a 6 by 4 raster lie at x = 0 and x = 2: the grid reconstruction uses
  cell width 4, while the spacing rule of the repository's own sizing test gives 2. The
  same holds for two tiles of width 256 at x = 0 and x = 128: 256 against 128.
\<close>

theorem grid_cell_size_ignores_spacing:
  "map (\<lambda>m. (tile_x m, tile_y m, tile_width m, tile_height m))
       (projr (extract_geotiff_tiles strip_raster 4 2)) = [(0, 0, 4, 4), (2, 0, 4, 4)] \<and>
   grid_cell_size (projr (extract_geotiff_tiles strip_raster 4 2)) = Some (4, 4) \<and>
   spacing_cell_size (projr (extract_geotiff_tiles strip_raster 4 2)) = Inr (2, 4) \<and>
   grid_cell_size [overlap_tile 0 0, overlap_tile 128 1] = Some (256, 256) \<and>
   spacing_cell_size [overlap_tile 0 0, overlap_tile 128 1] = Inr (128, 256)"
  by (simp add: grid_cell_size_def spacing_cell_size_def py_min_def sorted_set_def
      overlap_tile_def extract_geotiff_tiles_def candidates_def py_range0_def tile_at_def
      any_masked_def strip_raster_def window_transform_def enumerate_eq_zip upt_rec upto.simps)

section \<open>Results about prototype file names\<close>

text \<open>
  C10. The claim: saving a prototype and loading it again recovers the class name exactly
  when the name has no underscore, slash or space. The class name \<open>query;x\<close> has
  none of the three, yet it comes back as \<open>x\<close>: loading removes every occurrence of
  \<open>query_\<close> from the stem, not only the prefix that saving added.
\<close>

theorem class_name_round_trip_loses_query_segment:
  "query_file_name ''query;x'' = ''query_query_x.npy'' \<and>
   class_name_of_file (query_file_name ''query;x'') = ''x'' \<and>
   set ''query;x'' \<inter> {CHR ''_'', CHR ''/'', CHR '' ''} = {}"
  by (simp add: class_name_of_file_def query_file_name_def safe_class_name_def path_stem_def)

section \<open>Results about tile extraction\<close>

lemma any_masked_iff:
  "any_masked src x y w h \<longleftrightarrow>
     (\<exists>i j. x \<le> i \<and> i < x + w \<and> y \<le> j \<and> j < y + h \<and> r_mask src i j = 0)"
proof
  assume "any_masked src x y w h"
  then obtain j i where "j \<in> set [y .. y + h - 1]" "i \<in> set [x .. x + w - 1]"
    and z: "r_mask src i j = 0"
    unfolding any_masked_def list_ex_iff by blast
  then have "x \<le> i \<and> i < x + w \<and> y \<le> j \<and> j < y + h" by simp
  with z show "\<exists>i j. x \<le> i \<and> i < x + w \<and> y \<le> j \<and> j < y + h \<and> r_mask src i j = 0"
    by blast
next
  assume "\<exists>i j. x \<le> i \<and> i < x + w \<and> y \<le> j \<and> j < y + h \<and> r_mask src i j = 0"
  then obtain i j where b: "x \<le> i" "i < x + w" "y \<le> j" "j < y + h"
    and z: "r_mask src i j = 0" by blast
  from b have "j \<in> set [y .. y + h - 1]" "i \<in> set [x .. x + w - 1]" by simp_all
  with z show "any_masked src x y w h"
    unfolding any_masked_def list_ex_iff by blast
qed

lemma collect_total:
  "(\<And>r. r \<in> set rs \<Longrightarrow> \<exists>v. r = Inr v) \<Longrightarrow> \<exists>out. collect rs = Inr out"
proof (induction rs)
  case Nil
  show ?case by simp
next
  case (Cons r rs)
  from Cons.prems obtain v where v: "r = Inr v" by auto
  from Cons obtain out where "collect rs = Inr out" by auto
  with v show ?case by simp
qed

lemma collect_members:
  "collect rs = Inr out \<Longrightarrow> t \<in> set out \<Longrightarrow> Inr (Some t) \<in> set rs"
proof (induction rs arbitrary: out)
  case Nil
  then show ?case by simp
next
  case (Cons r rs)
  show ?case
  proof (cases r)
    case (Inl e)
    with Cons.prems show ?thesis by simp
  next
    case (Inr v)
    with Cons.prems obtain out' where o: "collect rs = Inr out'"
      and out: "out = (case v of None \<Rightarrow> [] | Some t \<Rightarrow> [t]) @ out'"
      by (auto split: sum.splits)
    show ?thesis
    proof (cases "t \<in> set out'")
      case True
      with Cons.IH [OF o] show ?thesis by simp
    next
      case False
      with out Cons.prems(2) have "v = Some t" by (auto split: option.splits)
      with Inr show ?thesis by simp
    qed
  qed
qed

lemma tile_at_total:
  "0 < tile_size \<Longrightarrow> \<exists>v. tile_at src tile_size rw cl y x = Inr v"
  by (auto simp add: tile_at_def Let_def)

lemma tile_at_Some:
  assumes "tile_at src tile_size rw cl y x = Inr (Some m)"
  shows "tile_x m = x \<and> tile_y m = y \<and> tile_width m = tile_size \<and> tile_height m = tile_size \<and>
         tile_size \<le> r_width src - x \<and> tile_size \<le> r_height src - y \<and>
         \<not> any_masked src x y tile_size tile_size"
  using assms by (auto simp add: tile_at_def Let_def min_def split: if_splits)

lemma small_raster_tiles:
  "map (\<lambda>m. (tile_x m, tile_y m, tile_width m, tile_height m))
       (projr (extract_geotiff_tiles small_raster 2 1)) =
     [(0, 0, 2, 2), (1, 0, 2, 2), (2, 0, 2, 2), (3, 0, 2, 2), (0, 1, 2, 2), (3, 1, 2, 2)]"
  by (simp add: extract_geotiff_tiles_def candidates_def py_range0_def tile_at_def
      any_masked_def small_raster_def window_transform_def enumerate_eq_zip upt_rec upto.simps)


text \<open>
  C4. With a positive tile size and an overlap other than the tile size the extractor
  returns a list of tiles. Whenever it returns one, every tile in it has pixel width and
  height equal to the tile size and no masked pixel in its window, and no tile is emitted
  at a position whose window is narrower or lower than the tile size or holds a masked
  pixel.
\<close>

theorem extract_tiles_full_and_unmasked:
  "(0 < tile_size \<and> overlap \<noteq> tile_size \<longrightarrow>
      (\<exists>tiles. extract_geotiff_tiles src tile_size overlap = Inr tiles)) \<and>
   (\<forall>tiles. extract_geotiff_tiles src tile_size overlap = Inr tiles \<longrightarrow>
      (\<forall>m \<in> set tiles.
          tile_width m = tile_size \<and> tile_height m = tile_size \<and>
          (\<forall>i j. tile_x m \<le> i \<and> i < tile_x m + tile_size \<and>
                 tile_y m \<le> j \<and> j < tile_y m + tile_size \<longrightarrow> r_mask src i j \<noteq> 0)) \<and>
      (\<forall>x y. (min tile_size (r_width src - x) < tile_size \<or>
               min tile_size (r_height src - y) < tile_size \<or>
               (\<exists>i j. x \<le> i \<and> i < x + min tile_size (r_width src - x) \<and>
                      y \<le> j \<and> j < y + min tile_size (r_height src - y) \<and>
                      r_mask src i j = 0))
              \<longrightarrow> \<not> (\<exists>m \<in> set tiles. tile_x m = x \<and> tile_y m = y)))"
proof (intro conjI impI allI)
  assume "0 < tile_size \<and> overlap \<noteq> tile_size"
  then have pos: "0 < tile_size" and ne: "tile_size \<noteq> 0" "tile_size - overlap \<noteq> 0" by auto
  have "\<exists>out. collect (map (\<lambda>(rw, cl, y, x). tile_at src tile_size rw cl y x)
                           (candidates src tile_size overlap)) = Inr out"
    by (rule collect_total) (use tile_at_total [OF pos] in auto)
  with ne show "\<exists>tiles. extract_geotiff_tiles src tile_size overlap = Inr tiles"
    by (simp add: extract_geotiff_tiles_def)
next
  fix tiles
  assume ex: "extract_geotiff_tiles src tile_size overlap = Inr tiles"
  then have col: "collect (map (\<lambda>(rw, cl, y, x). tile_at src tile_size rw cl y x)
                              (candidates src tile_size overlap)) = Inr tiles"
    by (simp add: extract_geotiff_tiles_def split: if_splits)
  have origin: "\<exists>rw cl. tile_at src tile_size rw cl (tile_y m) (tile_x m) = Inr (Some m)"
    if "m \<in> set tiles" for m
  proof -
    from collect_members [OF col that] obtain rw cl y x
      where t: "tile_at src tile_size rw cl y x = Inr (Some m)" by auto
    from tile_at_Some [OF t] t show ?thesis by auto
  qed
  show "\<forall>m \<in> set tiles.
          tile_width m = tile_size \<and> tile_height m = tile_size \<and>
          (\<forall>i j. tile_x m \<le> i \<and> i < tile_x m + tile_size \<and>
                 tile_y m \<le> j \<and> j < tile_y m + tile_size \<longrightarrow> r_mask src i j \<noteq> 0)"
  proof
    fix m assume "m \<in> set tiles"
    from origin [OF this] obtain rw cl
      where "tile_at src tile_size rw cl (tile_y m) (tile_x m) = Inr (Some m)" by auto
    from tile_at_Some [OF this] show "tile_width m = tile_size \<and> tile_height m = tile_size \<and>
          (\<forall>i j. tile_x m \<le> i \<and> i < tile_x m + tile_size \<and>
                 tile_y m \<le> j \<and> j < tile_y m + tile_size \<longrightarrow> r_mask src i j \<noteq> 0)"
      by (auto simp add: any_masked_iff)
  qed
  fix x y
  assume bad: "min tile_size (r_width src - x) < tile_size \<or>
               min tile_size (r_height src - y) < tile_size \<or>
               (\<exists>i j. x \<le> i \<and> i < x + min tile_size (r_width src - x) \<and>
                      y \<le> j \<and> j < y + min tile_size (r_height src - y) \<and>
                      r_mask src i j = 0)"
  show "\<not> (\<exists>m \<in> set tiles. tile_x m = x \<and> tile_y m = y)"
  proof
    assume "\<exists>m \<in> set tiles. tile_x m = x \<and> tile_y m = y"
    then obtain m where m: "m \<in> set tiles" "tile_x m = x" "tile_y m = y" by auto
    from origin [OF m(1)] m obtain rw cl
      where "tile_at src tile_size rw cl y x = Inr (Some m)" by auto
    from tile_at_Some [OF this]
    have full: "tile_size \<le> r_width src - x" "tile_size \<le> r_height src - y"
      and nm: "\<not> any_masked src x y tile_size tile_size" by simp_all
    from full have "min tile_size (r_width src - x) = tile_size"
      "min tile_size (r_height src - y) = tile_size" by simp_all
    with bad have "any_masked src x y tile_size tile_size"
      by (simp add: any_masked_iff)
    with nm show False by simp
  qed
qed

theorem extract_tiles_full_and_unmasked_witness:
  "(0::int) < 2 \<and> (1::int) \<noteq> 2 \<and>
   (\<exists>tiles. extract_geotiff_tiles small_raster 2 1 = Inr tiles \<and>
      map (\<lambda>m. (tile_x m, tile_y m, tile_width m, tile_height m)) tiles =
        [(0, 0, 2, 2), (1, 0, 2, 2), (2, 0, 2, 2), (3, 0, 2, 2), (0, 1, 2, 2), (3, 1, 2, 2)] \<and>
      (\<forall>m \<in> set tiles. tile_width m = 2 \<and> tile_height m = 2 \<and>
          (\<forall>i j. tile_x m \<le> i \<and> i < tile_x m + 2 \<and> tile_y m \<le> j \<and> j < tile_y m + 2
                 \<longrightarrow> r_mask small_raster i j \<noteq> 0)) \<and>
      \<not> (\<exists>m \<in> set tiles. tile_x m = 1 \<and> tile_y m = 1) \<and>
      \<not> (\<exists>m \<in> set tiles. tile_x m = 4 \<and> tile_y m = 0))"
proof -
  note t = extract_tiles_full_and_unmasked [of 2 1 small_raster]
  from t obtain tiles where ex: "extract_geotiff_tiles small_raster 2 1 = Inr tiles"
    by auto
  from t ex have sizes: "\<forall>m \<in> set tiles. tile_width m = 2 \<and> tile_height m = 2 \<and>
          (\<forall>i j. tile_x m \<le> i \<and> i < tile_x m + 2 \<and> tile_y m \<le> j \<and> j < tile_y m + 2
                 \<longrightarrow> r_mask small_raster i j \<noteq> 0)"
    by blast
  have masked: "\<exists>i j. (1::int) \<le> i \<and> i < 1 + min 2 (r_width small_raster - 1) \<and>
                      (1::int) \<le> j \<and> j < 1 + min 2 (r_height small_raster - 1) \<and>
                      r_mask small_raster i j = 0"
    by (intro exI [of _ 2]) (simp add: small_raster_def)
  from t ex masked have no11: "\<not> (\<exists>m \<in> set tiles. tile_x m = 1 \<and> tile_y m = 1)"
    by blast
  have "min 2 (r_width small_raster - 4) < 2" by (simp add: small_raster_def)
  with t ex have no40: "\<not> (\<exists>m \<in> set tiles. tile_x m = 4 \<and> tile_y m = 0)"
    by blast
  from small_raster_tiles ex
  have "map (\<lambda>m. (tile_x m, tile_y m, tile_width m, tile_height m)) tiles =
        [(0, 0, 2, 2), (1, 0, 2, 2), (2, 0, 2, 2), (3, 0, 2, 2), (0, 1, 2, 2), (3, 1, 2, 2)]"
    by simp
  with ex sizes no11 no40 show ?thesis by simp
qed

section \<open>Results about class colours\<close>

lemma unique_classes_set:
  "unique_classes results = sorted_list_of_set (best_class ` set results)"
  unfolding unique_classes_def set_map [symmetric] sorted_list_of_set_sort_remdups
  by (rule refl)

lemma py_dict_distinct:
  "distinct (map fst kvs) \<Longrightarrow> py_dict kvs = map_of kvs"
  unfolding py_dict_def
  by (rule ext) (simp add: map_of_inject_set [of "rev kvs" kvs, THEN iffD2] distinct_rev rev_map [symmetric])

lemma palette_length: "length (generate_color_palette n) = n"
  by (simp add: generate_color_palette_def)

text \<open>
  C9. Two lists of results with the same set of \<open>best_class\<close> names, in any order and
  with any repetitions, get the same class-to-colour mapping when no colour table is given.
  The mapping is defined exactly on the class names, and the \<open>i\<close>-th name in ascending
  order gets the \<open>i\<close>-th colour of the palette of evenly spaced hues.
\<close>

theorem class_colours_depend_on_class_set:
  assumes "best_class ` set results1 = best_class ` set results2"
  shows "class_to_color results1 = class_to_color results2 \<and>
         dom (class_to_color results1) = best_class ` set results1 \<and>
         (\<forall>i < card (best_class ` set results1).
            class_to_color results1 (sorted_list_of_set (best_class ` set results1) ! i) =
              Some (generate_color_palette (card (best_class ` set results1)) ! i))"
proof (intro conjI allI impI)
  from assms show "class_to_color results1 = class_to_color results2"
    by (simp add: class_to_color_def unique_classes_set)
  let ?S = "best_class ` set results1"
  let ?U = "sorted_list_of_set ?S"
  let ?P = "generate_color_palette (length ?U)"
  have fin: "finite ?S" by simp
  have len: "length ?U = card ?S" by simp
  have d: "distinct (map fst (zip ?U ?P))"
    by (simp add: palette_length)
  have eq: "class_to_color results1 = map_of (zip ?U ?P)"
    unfolding class_to_color_def generate_class_colors_def unique_classes_set
    by (rule py_dict_distinct [OF d])
  show "dom (class_to_color results1) = ?S"
    unfolding eq by (simp add: palette_length)
  fix i assume i: "i < card ?S"
  have "map_of (zip ?U ?P) (?U ! i) = Some (?P ! i)"
    by (rule map_of_zip_nth) (use i in \<open>simp_all add: palette_length\<close>)
  then show "class_to_color results1 (?U ! i) = Some (generate_color_palette (card ?S) ! i)"
    unfolding eq by simp
qed

theorem class_colours_depend_on_class_set_witness:
  "best_class ` set [toy_result 0 ''vegetation;seagrass;dense'', toy_result 1 ''substrate;sand;fine''] =
     best_class ` set [toy_result 0 ''substrate;sand;fine'', toy_result 1 ''vegetation;seagrass;dense'',
                       toy_result 2 ''substrate;sand;fine''] \<and>
   class_to_color [toy_result 0 ''vegetation;seagrass;dense'', toy_result 1 ''substrate;sand;fine''] =
     class_to_color [toy_result 0 ''substrate;sand;fine'', toy_result 1 ''vegetation;seagrass;dense'',
                     toy_result 2 ''substrate;sand;fine''] \<and>
   class_to_color [toy_result 0 ''vegetation;seagrass;dense'', toy_result 1 ''substrate;sand;fine'']
     ''substrate;sand;fine'' = Some (229, 45, 45) \<and>
   class_to_color [toy_result 0 ''substrate;sand;fine'', toy_result 1 ''vegetation;seagrass;dense'',
                   toy_result 2 ''substrate;sand;fine'']
     ''vegetation;seagrass;dense'' = Some (45, 229, 229)"
proof -
  let ?A = "[toy_result 0 ''vegetation;seagrass;dense'', toy_result 1 ''substrate;sand;fine'']"
  let ?B = "[toy_result 0 ''substrate;sand;fine'', toy_result 1 ''vegetation;seagrass;dense'',
             toy_result 2 ''substrate;sand;fine'']"
  have s: "best_class ` set ?A = best_class ` set ?B"
    by (auto simp add: toy_result_def)
  have m: "map best_class ?A = [''vegetation;seagrass;dense'', ''substrate;sand;fine'']"
    by (simp add: toy_result_def)
  have u: "unique_classes ?A = [''substrate;sand;fine'', ''vegetation;seagrass;dense'']"
    unfolding unique_classes_def m by code_simp
  have p: "generate_color_palette (Suc (Suc 0)) = [(229, 45, 45), (45, 229, 229)]"
    by (simp add: generate_color_palette_def hsv_to_rgb_def py_int_def upt_rec Let_def)
  have c: "class_to_color ?A =
      [''substrate;sand;fine'' \<mapsto> (229, 45, 45), ''vegetation;seagrass;dense'' \<mapsto> (45, 229, 229)]"
    unfolding class_to_color_def generate_class_colors_def u
    by (simp add: p py_dict_def)
  from class_colours_depend_on_class_set [OF s]
  have e: "class_to_color ?A = class_to_color ?B"
    by (rule conjunct1)
  have c2: "class_to_color ?B =
      [''substrate;sand;fine'' \<mapsto> (229, 45, 45), ''vegetation;seagrass;dense'' \<mapsto> (45, 229, 229)]"
    unfolding e [symmetric] by (rule c)
  have v1: "class_to_color ?A ''substrate;sand;fine'' = Some (229, 45, 45)"
    unfolding c by simp
  have v2: "class_to_color ?B ''vegetation;seagrass;dense'' = Some (45, 229, 229)"
    unfolding c2 by simp
  show ?thesis
    by (intro conjI) (rule s, rule e, rule v1, rule v2)
qed

section \<open>Results about batched embedding\<close>

lemma concat_chunks_take:
  "concat (map (\<lambda>k. take b (drop (k * b) xs)) [0 ..< m]) = take (m * b) xs"
proof (induction m)
  case 0
  show ?case by simp
next
  case (Suc m)
  have "take (m * b) xs @ take b (drop (m * b) xs) = take (m * b + b) xs"
    by (simp add: take_add)
  with Suc show ?case by (simp add: add.commute)
qed

lemma batch_count_covers:
  assumes "0 < (b::int)" "0 \<le> n"
  shows "n \<le> ((n + b - 1) div b) * b"
proof -
  have "(n + b - 1) mod b < b" using assms by simp
  moreover have "(n + b - 1) div b * b + (n + b - 1) mod b = n + b - 1" by simp
  ultimately show ?thesis by linarith
qed

lemma batches_concat:
  assumes "0 < batch_size"
  shows "concat (map (\<lambda>i. take (nat batch_size) (drop (nat i) tiles))
                     (py_range0 (int (length tiles)) batch_size)) = tiles"
proof -
  let ?m = "nat ((int (length tiles) + batch_size - 1) div batch_size)"
  have idx: "nat (int k * batch_size) = k * nat batch_size" for k
    using assms by (simp add: nat_mult_distrib)
  have "concat (map (\<lambda>i. take (nat batch_size) (drop (nat i) tiles))
                     (py_range0 (int (length tiles)) batch_size))
        = concat (map (\<lambda>k. take (nat batch_size) (drop (k * nat batch_size) tiles)) [0 ..< ?m])"
    using assms by (simp add: py_range0_def comp_def idx)
  also have "\<dots> = take (?m * nat batch_size) tiles"
    by (rule concat_chunks_take)
  also have "\<dots> = tiles"
  proof -
    have "0 \<le> (int (length tiles) + batch_size - 1) div batch_size"
      using assms by (simp add: pos_imp_zdiv_nonneg_iff)
    then have "int (?m * nat batch_size)
        = ((int (length tiles) + batch_size - 1) div batch_size) * batch_size"
      using assms by simp
    with batch_count_covers [OF assms, of "int (length tiles)"]
    have "length tiles \<le> ?m * nat batch_size" by linarith
    then show ?thesis by simp
  qed
  finally show ?thesis .
qed


lemma l2_normalize_length [simp]: "length (l2_normalize v) = length v"
  by (simp add: l2_normalize_def)

lemma process_tiles_itemwise:
  assumes bs: "0 < batch_size" and enc: "itemwise encode_image enc d"
  shows "process_tiles_in_batches (tiles :: ('img \<times> 'meta) list) encode_image preprocess
             batch_size =
           Inr (map (\<lambda>(tile_data, metadata). embed_tile enc preprocess tile_data) tiles,
                map snd tiles)"
proof -
  define B where "B = map (\<lambda>i. take (nat batch_size) (drop (nat i) tiles))
                          (py_range0 (int (length tiles)) batch_size)"
  define g :: "'img \<times> 'meta \<Rightarrow> fnum list"
    where "g = (\<lambda>(tile_data, metadata). embed_tile enc preprocess tile_data)"
  define blocks where "blocks = map (\<lambda>(batch_tensors, ms).
                        map (\<lambda>features. l2_normalize (map Fin features))
                            (encode_image batch_tensors)) (map (preprocess_batch preprocess) B)"
  have cB: "concat B = tiles"
    unfolding B_def by (rule batches_concat [OF bs])
  have meta: "concat (map snd (map (preprocess_batch preprocess) B)) = map snd tiles"
    by (simp add: preprocess_batch_def comp_def map_concat [symmetric] cB)
  from enc have e1: "encode_image batch = map enc batch" for batch
    by (simp add: itemwise_def)
  from enc have e2: "length (enc t) = d" for t
    by (simp add: itemwise_def)
  have blk: "blocks = map (map g) B"
    unfolding blocks_def g_def
    by (simp add: preprocess_batch_def e1 embed_tile_def comp_def case_prod_unfold)
  have rows: "concat blocks = map g tiles"
    unfolding blk by (simp add: map_concat [symmetric] cB)
  have len: "length r = d" if "r \<in> set (concat blocks)" for r
    using that unfolding rows g_def by (auto simp add: embed_tile_def e2)
  have stack: "(if blocks = [] then Inr [] else np_vstack blocks) = Inr (map g tiles)"
  proof (cases "blocks = []")
    case True
    with rows show ?thesis by simp
  next
    case False
    have "list_all (\<lambda>r. length r = length (hd (concat blocks))) (concat blocks)"
    proof (cases "concat blocks")
      case Nil
      show ?thesis unfolding Nil by simp
    next
      case (Cons r rs)
      then have "length (hd (concat blocks)) = d" using len by simp
      then show ?thesis using len by (simp add: list_all_iff)
    qed
    with False rows show ?thesis by (simp add: np_vstack_def)
  qed
  from bs have "batch_size \<noteq> 0" by simp
  then show ?thesis
    using stack meta
    unfolding process_tiles_in_batches_def Let_def B_def [symmetric] blocks_def [symmetric] g_def
    by simp
qed


lemma fsum_Fin: "fsum (map Fin xs) = Fin (sum_list xs)"
  by (induction xs) (simp_all add: fsum_def)

lemma sum_squares_nonneg: "0 \<le> (\<Sum>x\<leftarrow>v. x * x)" for v :: "real list"
  by (rule sum_list_nonneg) auto

lemma linalg_norm_Fin: "linalg_norm (map Fin v) = Fin (rnorm v)"
proof -
  have "map (\<lambda>x. fmul x x) (map Fin v) = map Fin (map (\<lambda>x. x * x) v)"
    by simp
  then have "fsum (map (\<lambda>x. fmul x x) (map Fin v)) = Fin (\<Sum>x\<leftarrow>v. x * x)"
    by (simp only: fsum_Fin)
  with sum_squares_nonneg [of v] show ?thesis
    by (simp add: linalg_norm_def rnorm_def not_less [symmetric])
qed

lemma rnorm_zero_iff: "rnorm v = 0 \<longleftrightarrow> (\<forall>x \<in> set v. x = 0)"
proof -
  have "(\<Sum>x\<leftarrow>v. x * x) = 0 \<longleftrightarrow> (\<forall>y \<in> set (map (\<lambda>x. x * x) v). y = 0)"
    by (rule sum_list_nonneg_eq_0_iff) auto
  then show ?thesis by (auto simp add: rnorm_def)
qed

lemma l2_normalize_Fin:
  "l2_normalize (map Fin v) =
     (if rnorm v = 0 then replicate (length v) NaN else map Fin (runit v))"
proof (cases "rnorm v = 0")
  case True
  then have z: "\<forall>x \<in> set v. x = 0" by (simp add: rnorm_zero_iff)
  have "map (\<lambda>x. fdiv x (Fin 0)) (map Fin v) = replicate (length v) NaN"
    using z by (induction v) (simp_all add: signed_inf_def)
  with True show ?thesis by (simp add: l2_normalize_def linalg_norm_Fin)
next
  case False
  then show ?thesis by (simp add: l2_normalize_def linalg_norm_Fin runit_def comp_def)
qed

lemma sqrt_25: "sqrt 25 = 5"
  by (rule real_sqrt_unique) auto

lemma sqrt_16: "sqrt 16 = 4"
  by (rule real_sqrt_unique) auto

lemma toy_itemwise: "itemwise (map toy_enc) toy_enc 2"
  by (simp add: itemwise_def toy_enc_def)

lemma null_itemwise: "itemwise (map null_enc) null_enc 2"
  by (simp add: itemwise_def null_enc_def)

lemma toy_embeddings:
  "map (\<lambda>(tile_data, metadata). embed_tile toy_enc toy_preprocess tile_data)
       [(0::nat, ''a''), (3, ''b''), (6, ''c'')] =
     [[Fin (3 / 5), Fin (4 / 5)], [Fin 0, Fin 1], [Fin (- 3 / 5), Fin (4 / 5)]]"
  by (simp add: embed_tile_def toy_enc_def toy_preprocess_def torch_zeros_def
      l2_normalize_def linalg_norm_def fsum_def sqrt_25 sqrt_16)

text \<open>
  C6. For a model that embeds every image of a batch on its own, any two batch sizes of at
  least 1 give the same result: the same embedding vectors in the same order and the same
  metadata, and the embedder returns (it raises nothing).
\<close>

theorem batch_size_invariance:
  assumes "1 \<le> b1" and "1 \<le> b2" and "itemwise encode_image enc d"
  shows "process_tiles_in_batches tiles encode_image preprocess b1 =
           process_tiles_in_batches tiles encode_image preprocess b2 \<and>
         (\<exists>embeddings tile_metadata.
            process_tiles_in_batches tiles encode_image preprocess b1 =
              Inr (embeddings, tile_metadata))"
proof -
  from assms have "0 < b1" "0 < b2" by simp_all
  then show ?thesis
    by (simp add: process_tiles_itemwise [OF _ assms(3)])
qed

theorem batch_size_invariance_witness:
  "(1::int) \<le> 1 \<and> (1::int) \<le> 2 \<and> itemwise (map toy_enc) toy_enc 2 \<and>
   process_tiles_in_batches [(0::nat, ''a''), (3, ''b''), (6, ''c'')] (map toy_enc) toy_preprocess 1 =
     process_tiles_in_batches [(0::nat, ''a''), (3, ''b''), (6, ''c'')] (map toy_enc) toy_preprocess 2 \<and>
   process_tiles_in_batches [(0::nat, ''a''), (3, ''b''), (6, ''c'')] (map toy_enc) toy_preprocess 2 =
     Inr ([[Fin (3 / 5), Fin (4 / 5)], [Fin 0, Fin 1], [Fin (- 3 / 5), Fin (4 / 5)]],
          [''a'', ''b'', ''c''])"
proof -
  have two: "process_tiles_in_batches [(0::nat, ''a''), (3, ''b''), (6, ''c'')] (map toy_enc)
      toy_preprocess 2 =
     Inr ([[Fin (3 / 5), Fin (4 / 5)], [Fin 0, Fin 1], [Fin (- 3 / 5), Fin (4 / 5)]],
          [''a'', ''b'', ''c''])"
    by (simp add: process_tiles_in_batches_def py_range0_def preprocess_batch_def toy_enc_def
        toy_preprocess_def torch_zeros_def np_vstack_def l2_normalize_def linalg_norm_def
        fsum_def upt_rec sqrt_25 sqrt_16)
  from batch_size_invariance [of 1 2 "map toy_enc" toy_enc 2
      "[(0::nat, ''a''), (3, ''b''), (6, ''c'')]" toy_preprocess] toy_itemwise
  have "process_tiles_in_batches [(0::nat, ''a''), (3, ''b''), (6, ''c'')] (map toy_enc) toy_preprocess 1 =
     process_tiles_in_batches [(0::nat, ''a''), (3, ''b''), (6, ''c'')] (map toy_enc) toy_preprocess 2"
    by simp
  with two toy_itemwise show ?thesis by simp
qed

text \<open>
  C7. For \<open>N\<close> tiles the embedder returns \<open>N\<close> embeddings and \<open>N\<close> metadata records.
  The record at position \<open>i\<close> is the metadata of tile \<open>i\<close>, and the embedding at position
  \<open>i\<close> is the normalised feature vector of tile \<open>i\<close>'s preprocessed image, or of the zero
  placeholder tensor when its preprocessing failed.
\<close>

theorem embeddings_aligned_with_tiles:
  assumes "1 \<le> batch_size" and "itemwise encode_image enc d"
  shows "\<exists>embeddings tile_metadata.
           process_tiles_in_batches tiles encode_image preprocess batch_size =
             Inr (embeddings, tile_metadata) \<and>
           length embeddings = length tiles \<and> length tile_metadata = length tiles \<and>
           (\<forall>i < length tiles.
              tile_metadata ! i = snd (tiles ! i) \<and>
              embeddings ! i =
                (case preprocess (fst (tiles ! i)) of
                   Some t \<Rightarrow> l2_normalize (map Fin (enc t))
                 | None \<Rightarrow> l2_normalize (map Fin (enc torch_zeros))))"
proof -
  from assms(1) have "0 < batch_size" by simp
  from process_tiles_itemwise [OF this assms(2)]
  have "process_tiles_in_batches tiles encode_image preprocess batch_size =
           Inr (map (\<lambda>(tile_data, metadata). embed_tile enc preprocess tile_data) tiles,
                map snd tiles)" .
  moreover have "map (\<lambda>(tile_data, metadata). embed_tile enc preprocess tile_data) tiles ! i =
      (case preprocess (fst (tiles ! i)) of
         Some t \<Rightarrow> l2_normalize (map Fin (enc t))
       | None \<Rightarrow> l2_normalize (map Fin (enc torch_zeros)))" if "i < length tiles" for i
    using that by (simp add: embed_tile_def case_prod_unfold split: option.splits)
  ultimately show ?thesis by simp
qed

theorem embeddings_aligned_with_tiles_witness:
  "(1::int) \<le> 2 \<and> itemwise (map toy_enc) toy_enc 2 \<and>
   (\<exists>embeddings tile_metadata.
      process_tiles_in_batches [(0::nat, ''a''), (3, ''b''), (6, ''c'')] (map toy_enc)
        toy_preprocess 2 = Inr (embeddings, tile_metadata) \<and>
      length embeddings = 3 \<and> tile_metadata = [''a'', ''b'', ''c''] \<and>
      toy_preprocess 0 = None \<and>
      embeddings ! 0 = l2_normalize (map Fin (toy_enc torch_zeros)) \<and>
      embeddings ! 0 = [Fin (3 / 5), Fin (4 / 5)] \<and>
      embeddings ! 1 = [Fin 0, Fin 1])"
proof -
  have one: "(1::int) \<le> 2" by simp
  from embeddings_aligned_with_tiles [OF one toy_itemwise,
      of "[(0::nat, ''a''), (3, ''b''), (6, ''c'')]" toy_preprocess]
  obtain embeddings tile_metadata where
    p: "process_tiles_in_batches [(0::nat, ''a''), (3, ''b''), (6, ''c'')] (map toy_enc)
        toy_preprocess 2 = Inr (embeddings, tile_metadata)"
    and l: "length embeddings = 3"
    and a: "\<forall>i < 3. tile_metadata ! i = snd ([(0::nat, ''a''), (3, ''b''), (6, ''c'')] ! i) \<and>
              embeddings ! i =
                (case toy_preprocess (fst ([(0::nat, ''a''), (3, ''b''), (6, ''c'')] ! i)) of
                   Some t \<Rightarrow> l2_normalize (map Fin (toy_enc t))
                 | None \<Rightarrow> l2_normalize (map Fin (toy_enc torch_zeros)))"
    by auto
  from a have e0: "embeddings ! 0 = l2_normalize (map Fin (toy_enc torch_zeros))"
    by (simp add: toy_preprocess_def)
  from p process_tiles_itemwise [of 2 "map toy_enc" toy_enc 2
      "[(0::nat, ''a''), (3, ''b''), (6, ''c'')]" toy_preprocess] toy_itemwise
  have v: "embeddings = [[Fin (3 / 5), Fin (4 / 5)], [Fin 0, Fin 1], [Fin (- 3 / 5), Fin (4 / 5)]]"
    and m: "tile_metadata = [''a'', ''b'', ''c'']"
    by (simp_all add: toy_embeddings [simplified])
  from p l e0 v m one toy_itemwise show ?thesis
    by (simp add: toy_preprocess_def)
qed

text \<open>
  C5. The claim: a feature vector of norm zero is an error of the embedder. The code divides
  by the norm without looking at it: for a model whose features for the placeholder are
  \<open>[0, 0]\<close> the embedder returns normally and the embedding is \<open>[NaN, NaN]\<close>.
\<close>

theorem zero_norm_embedding_returns_nan:
  "rnorm (null_enc torch_zeros) = 0 \<and>
   process_tiles_in_batches [(0::nat, ''a'')] (map null_enc) toy_preprocess 32 =
     Inr ([[NaN, NaN]], [''a''])"
  by (simp add: process_tiles_in_batches_def py_range0_def preprocess_batch_def null_enc_def
      toy_preprocess_def torch_zeros_def np_vstack_def l2_normalize_def linalg_norm_def
      fsum_def rnorm_def signed_inf_def)

text \<open>
  C5, as the code has it. The embedder returns for every input; every feature vector with
  a norm other than zero is divided by its norm, and for a feature vector of norm zero
  every component of the embedding is NaN; no error is raised.
\<close>

theorem embeddings_divided_by_norm_without_check:
  assumes "1 \<le> batch_size" and "itemwise encode_image enc d"
  shows "\<exists>embeddings tile_metadata.
           process_tiles_in_batches tiles encode_image preprocess batch_size =
             Inr (embeddings, tile_metadata) \<and>
           (\<forall>i < length tiles.
              let v = enc (case preprocess (fst (tiles ! i)) of
                             Some t \<Rightarrow> t | None \<Rightarrow> torch_zeros)
              in (rnorm v \<noteq> 0 \<longrightarrow> embeddings ! i = map (\<lambda>x. Fin (x / rnorm v)) v) \<and>
                 (rnorm v = 0 \<longrightarrow> embeddings ! i = replicate d NaN))"
proof -
  from assms(1) have "0 < batch_size" by simp
  from process_tiles_itemwise [OF this assms(2)]
  have "process_tiles_in_batches tiles encode_image preprocess batch_size =
           Inr (map (\<lambda>(tile_data, metadata). embed_tile enc preprocess tile_data) tiles,
                map snd tiles)" .
  moreover from assms(2) have "length (enc t) = d" for t
    by (simp add: itemwise_def)
  ultimately show ?thesis
    by (simp add: Let_def embed_tile_def case_prod_unfold l2_normalize_Fin runit_def comp_def)
qed

theorem embeddings_divided_by_norm_without_check_witness:
  "(1::int) \<le> 32 \<and> itemwise (map null_enc) null_enc 2 \<and>
   (\<exists>embeddings tile_metadata.
      process_tiles_in_batches [(0::nat, ''a''), (5, ''b'')] (map null_enc) toy_preprocess 32 =
        Inr (embeddings, tile_metadata) \<and>
      rnorm (null_enc torch_zeros) = 0 \<and> embeddings ! 0 = [NaN, NaN] \<and>
      rnorm (null_enc [- 5]) = 5 \<and> embeddings ! 1 = [Fin (- 1), Fin 0])"
proof -
  have one: "(1::int) \<le> 32" by simp
  have n0: "rnorm (null_enc torch_zeros) = 0"
    by (simp add: rnorm_def null_enc_def torch_zeros_def)
  have n5: "rnorm (null_enc [- 5]) = 5"
    by (simp add: rnorm_def null_enc_def sqrt_25)
  from embeddings_divided_by_norm_without_check [OF one null_itemwise,
      of "[(0::nat, ''a''), (5, ''b'')]" toy_preprocess]
  obtain embeddings tile_metadata where
    p: "process_tiles_in_batches [(0::nat, ''a''), (5, ''b'')] (map null_enc) toy_preprocess 32 =
        Inr (embeddings, tile_metadata)"
    and a: "\<forall>i < 2.
              let v = null_enc (case toy_preprocess (fst ([(0::nat, ''a''), (5, ''b'')] ! i)) of
                             Some t \<Rightarrow> t | None \<Rightarrow> torch_zeros)
              in (rnorm v \<noteq> 0 \<longrightarrow> embeddings ! i = map (\<lambda>x. Fin (x / rnorm v)) v) \<and>
                 (rnorm v = 0 \<longrightarrow> embeddings ! i = replicate 2 NaN)"
    by auto
  from spec [OF a, of 0] have "let v = null_enc torch_zeros
              in (rnorm v \<noteq> 0 \<longrightarrow> embeddings ! 0 = map (\<lambda>x. Fin (x / rnorm v)) v) \<and>
                 (rnorm v = 0 \<longrightarrow> embeddings ! 0 = replicate 2 NaN)"
    by (simp add: toy_preprocess_def)
  with n0 have e0: "embeddings ! 0 = [NaN, NaN]"
    by (simp add: Let_def numeral_2_eq_2)
  from spec [OF a, of 1] have "let v = null_enc [- 5]
              in (rnorm v \<noteq> 0 \<longrightarrow> embeddings ! 1 = map (\<lambda>x. Fin (x / rnorm v)) v) \<and>
                 (rnorm v = 0 \<longrightarrow> embeddings ! 1 = replicate 2 NaN)"
    by (simp add: toy_preprocess_def)
  with n5 have e1: "embeddings ! 1 = [Fin (- 1), Fin 0]"
    by (simp add: Let_def null_enc_def)
  from p n0 n5 e0 e1 one null_itemwise show ?thesis by simp
qed

section \<open>Results about the prototype builder\<close>

lemma np_mean_Fin:
  assumes "rows \<noteq> []" and "\<forall>r \<in> set rows. length r = d"
  shows "np_mean_axis0 (map (map Fin) rows) = map Fin (rmean_axis0 rows)"
proof -
  from assms have hd: "length (hd rows) = d" by (cases rows) simp_all
  have col: "fsum (map (\<lambda>r. r ! j) (map (map Fin) rows)) = Fin (\<Sum>r\<leftarrow>rows. r ! j)"
    if "j < d" for j
    using assms(2) that by (induction rows) (simp_all add: fsum_def)
  from assms(1) have n: "real (length rows) \<noteq> 0" by simp
  have "map (\<lambda>j. fdiv (fsum (map (\<lambda>r. r ! j) (map (map Fin) rows)))
                       (Fin (real (length rows)))) [0 ..< d]
        = map (\<lambda>j. Fin ((\<Sum>r\<leftarrow>rows. r ! j) / real (length rows))) [0 ..< d]"
  proof (rule map_cong [OF refl])
    fix j assume "j \<in> set [0 ..< d]"
    then have "j < d" by simp
    from col [OF this] n
    show "fdiv (fsum (map (\<lambda>r. r ! j) (map (map Fin) rows))) (Fin (real (length rows)))
          = Fin ((\<Sum>r\<leftarrow>rows. r ! j) / real (length rows))"
      by simp
  qed
  moreover from assms(1) have "length (hd (map (map Fin) rows)) = d"
    using hd by (simp add: hd_map)
  ultimately show ?thesis
    unfolding np_mean_axis0_def rmean_axis0_def hd
    by (simp only: map_map comp_def length_map)
qed

lemma rmean_axis0_length:
  "rows \<noteq> [] \<Longrightarrow> \<forall>r \<in> set rows. length r = d \<Longrightarrow> length (rmean_axis0 rows) = d"
  by (cases rows) (simp_all add: rmean_axis0_def)

lemma runit_length [simp]: "length (runit v) = length v"
  by (simp add: runit_def)

lemma rnorm_nonneg: "0 \<le> rnorm v"
  by (simp add: rnorm_def sum_squares_nonneg)

lemma rnorm_square: "rnorm v * rnorm v = (\<Sum>x\<leftarrow>v. x * x)"
  using sum_squares_nonneg [of v] by (simp add: rnorm_def)

lemma rnorm_runit:
  assumes "rnorm v \<noteq> 0"
  shows "rnorm (runit v) = 1"
proof -
  let ?n = "rnorm v"
  have "(\<Sum>x\<leftarrow>runit v. x * x) = (\<Sum>x\<leftarrow>v. (x * x) * (1 / (?n * ?n)))"
    by (simp add: runit_def comp_def)
  also have "\<dots> = (\<Sum>x\<leftarrow>v. x * x) * (1 / (?n * ?n))"
    by (rule sum_list_mult_const)
  also have "\<dots> = 1"
    using assms by (simp add: rnorm_square [symmetric])
  finally show ?thesis by (simp add: rnorm_def)
qed

lemma centroid_regular:
  assumes ne: "E \<noteq> []" and rect: "\<forall>e \<in> set E. length e = d"
    and nz: "\<forall>e \<in> set E. rnorm e \<noteq> 0"
    and mz: "rnorm (rmean_axis0 (map runit E)) \<noteq> 0"
  shows "l2_normalize (np_mean_axis0 (map (\<lambda>e. l2_normalize (map Fin e)) E)) =
           map Fin (runit (rmean_axis0 (map runit E)))"
proof -
  have "map (\<lambda>e. l2_normalize (map Fin e)) E = map (\<lambda>e. map Fin (runit e)) E"
    by (rule map_cong [OF refl]) (use nz in \<open>simp add: l2_normalize_Fin\<close>)
  also have "\<dots> = map (map Fin) (map runit E)"
    by simp
  finally have "np_mean_axis0 (map (\<lambda>e. l2_normalize (map Fin e)) E) =
      np_mean_axis0 (map (map Fin) (map runit E))"
    by (rule arg_cong)
  also have "\<dots> = map Fin (rmean_axis0 (map runit E))"
    by (rule np_mean_Fin [where d = d]) (use ne rect in auto)
  finally show ?thesis using mz by (simp only: l2_normalize_Fin if_False)
qed

lemma sqrt_double_square: "0 \<le> a \<Longrightarrow> sqrt (a * a + a * a) = a * sqrt 2"
proof -
  assume a: "0 \<le> a"
  have "a * a + a * a = 2 * (a * a)" by simp
  then have "sqrt (a * a + a * a) = sqrt 2 * sqrt (a * a)"
    by (simp only: real_sqrt_mult)
  with a show ?thesis by simp
qed

lemma rnorm_pair: "0 \<le> a \<Longrightarrow> rnorm [a, a] = a * sqrt 2"
  using sqrt_double_square [of a] by (simp add: rnorm_def)

lemma runit_pair: "0 < a \<Longrightarrow> runit [a, a] = [1 / sqrt 2, 1 / sqrt 2]"
  by (simp add: runit_def rnorm_pair)

lemma toy_centroid:
  "create_query_vector toy_embeddings_table ''c'' ''centroid'' =
     Inr [Fin (1 / sqrt 2), Fin (1 / sqrt 2)]"
proof -
  let ?a = "(1 + 1 / sqrt 2) / 3"
  have a: "0 < ?a" by (simp add: add_pos_pos)
  have u: "map runit [[1, 0], [0, 1], [1, 1]] = [[1, 0], [0, 1], [1 / sqrt 2, 1 / sqrt 2]]"
    by (simp add: runit_def rnorm_def)
  have m: "rmean_axis0 [[1, 0], [0, 1], [1 / sqrt 2, 1 / sqrt 2]] = [?a, ?a]"
    by (simp add: rmean_axis0_def upt_rec)
  have n: "rnorm [?a, ?a] = ?a * sqrt 2"
    by (rule rnorm_pair) (use a in simp)
  have r: "runit [?a, ?a] = [1 / sqrt 2, 1 / sqrt 2]"
    by (rule runit_pair [OF a])
  have "l2_normalize (np_mean_axis0 (map (\<lambda>e. l2_normalize (map Fin e)) [[1, 0], [0, 1], [1, 1]])) =
           map Fin (runit (rmean_axis0 (map runit [[1, 0], [0, 1], [1, 1]])))"
  proof (rule centroid_regular [where d = 2])
    show "\<forall>e \<in> set [[1, 0], [0, 1], [1, 1::real]]. rnorm e \<noteq> 0"
      by (simp add: rnorm_def)
    show "rnorm (rmean_axis0 (map runit [[1, 0], [0, 1], [1, 1]])) \<noteq> 0"
      unfolding u m n using a by simp
  qed simp_all
  then show ?thesis
    unfolding u m r
    by (simp add: create_query_vector_def toy_embeddings_table_def np_stack_def query_vector_of_def)
qed


lemma inv_sqrt_2_bounds: "707 / 1000 < 1 / sqrt 2 \<and> 1 / sqrt 2 < 708 / 1000"
proof -
  have lo: "1414 / 1000 < sqrt 2"
    by (rule real_less_rsqrt) (simp add: power2_eq_square)
  have hi: "sqrt 2 < 1416 / 1000"
    by (rule real_less_lsqrt) (simp_all add: power2_eq_square)
  have "2 / sqrt 2 = sqrt 2" by (rule real_div_sqrt) simp
  then have "1 / sqrt 2 = sqrt 2 / 2" by simp
  with lo hi show ?thesis by simp
qed

lemma np_stack_rect:
  "E \<noteq> [] \<Longrightarrow> \<forall>e \<in> set E. length e = d \<Longrightarrow> np_stack E = Inr E"
  by (cases E) (simp_all add: np_stack_def list_all_iff)

lemma np_median_axis0_rect:
  "E \<noteq> [] \<Longrightarrow> \<forall>e \<in> set E. length e = d \<Longrightarrow>
   np_median_axis0 E = map (\<lambda>j. np_median (map (\<lambda>e. e ! j) E)) [0 ..< d]"
  by (cases E) (simp_all add: np_median_axis0_def)

text \<open>
  C3. For the embeddings \<open>E\<close> of a class, at least one and all of \<open>d\<close> components:
  method \<open>mean\<close> gives in every component the arithmetic mean of that component, not
  renormalised; \<open>median\<close> gives in every component its median, not renormalised;
  \<open>centroid\<close> divides every embedding by its norm, takes the mean and divides the mean by
  its norm, and when no norm involved is zero the result is the unit vector of the mean of
  the unit vectors, of norm 1. For \<open>[1, 0]\<close>, \<open>[0, 1]\<close>, \<open>[1, 1]\<close> the mean is
  \<open>[2/3, 2/3]\<close>, the median \<open>[1, 1]\<close> and the centroid \<open>[1/sqrt 2, 1/sqrt 2]\<close>, where
  \<open>0.707 < 1/sqrt 2 < 0.708\<close>.
\<close>

theorem prototype_builder_methods:
  assumes E: "E = map snd (filter (\<lambda>(c, e). c = class_name) df_embeddings)"
    and ne: "E \<noteq> []" and rect: "\<forall>e \<in> set E. length e = d"
  shows "create_query_vector df_embeddings class_name ''mean'' =
           Inr (map (\<lambda>j. Fin ((\<Sum>e\<leftarrow>E. e ! j) / real (length E))) [0 ..< d]) \<and>
         create_query_vector df_embeddings class_name ''median'' =
           Inr (map (\<lambda>j. Fin (np_median (map (\<lambda>e. e ! j) E))) [0 ..< d]) \<and>
         create_query_vector df_embeddings class_name ''centroid'' =
           Inr (l2_normalize (np_mean_axis0 (map (\<lambda>e. l2_normalize (map Fin e)) E))) \<and>
         ((\<forall>e \<in> set E. rnorm e \<noteq> 0) \<and> rnorm (rmean_axis0 (map runit E)) \<noteq> 0 \<longrightarrow>
            create_query_vector df_embeddings class_name ''centroid'' =
              Inr (map Fin (runit (rmean_axis0 (map runit E)))) \<and>
            rnorm (runit (rmean_axis0 (map runit E))) = 1) \<and>
         create_query_vector toy_embeddings_table ''c'' ''mean'' = Inr [Fin (2 / 3), Fin (2 / 3)] \<and>
         create_query_vector toy_embeddings_table ''c'' ''median'' = Inr [Fin 1, Fin 1] \<and>
         create_query_vector toy_embeddings_table ''c'' ''centroid'' =
           Inr [Fin (1 / sqrt 2), Fin (1 / sqrt 2)] \<and>
         707 / 1000 < 1 / sqrt 2 \<and> 1 / sqrt 2 < 708 / 1000"
proof -
  from ne E have f: "filter (\<lambda>(c, e). c = class_name) df_embeddings \<noteq> []" by auto
  have run: "create_query_vector df_embeddings class_name how = query_vector_of how E"
    for how
    using f np_stack_rect [OF ne rect]
    by (simp add: create_query_vector_def E [symmetric])
  from ne rect have hd: "length (hd E) = d" by (cases E) simp_all
  have mean: "np_mean_axis0 (map (map Fin) E) =
      map (\<lambda>j. Fin ((\<Sum>e\<leftarrow>E. e ! j) / real (length E))) [0 ..< d]"
    unfolding np_mean_Fin [OF ne rect] rmean_axis0_def hd by (simp add: comp_def)
  have median: "map Fin (np_median_axis0 E) =
      map (\<lambda>j. Fin (np_median (map (\<lambda>e. e ! j) E))) [0 ..< d]"
    unfolding np_median_axis0_rect [OF ne rect] by (simp add: comp_def)
  have c1: "create_query_vector df_embeddings class_name ''mean'' =
           Inr (map (\<lambda>j. Fin ((\<Sum>e\<leftarrow>E. e ! j) / real (length E))) [0 ..< d])"
    unfolding run by (simp add: query_vector_of_def mean)
  have c2: "create_query_vector df_embeddings class_name ''median'' =
           Inr (map (\<lambda>j. Fin (np_median (map (\<lambda>e. e ! j) E))) [0 ..< d])"
    unfolding run by (simp add: query_vector_of_def median)
  have c3: "create_query_vector df_embeddings class_name ''centroid'' =
           Inr (l2_normalize (np_mean_axis0 (map (\<lambda>e. l2_normalize (map Fin e)) E)))"
    unfolding run by (simp add: query_vector_of_def)
  have c4: "create_query_vector df_embeddings class_name ''centroid'' =
              Inr (map Fin (runit (rmean_axis0 (map runit E)))) \<and>
            rnorm (runit (rmean_axis0 (map runit E))) = 1"
    if "(\<forall>e \<in> set E. rnorm e \<noteq> 0) \<and> rnorm (rmean_axis0 (map runit E)) \<noteq> 0"
    using that c3 centroid_regular [OF ne rect] rnorm_runit by simp
  have e1: "create_query_vector toy_embeddings_table ''c'' ''mean'' =
      Inr [Fin (2 / 3), Fin (2 / 3)]"
    by (simp add: create_query_vector_def toy_embeddings_table_def np_stack_def
        query_vector_of_def np_mean_axis0_def fsum_def upt_rec)
  have e2: "create_query_vector toy_embeddings_table ''c'' ''median'' = Inr [Fin 1, Fin 1]"
    by (simp add: create_query_vector_def toy_embeddings_table_def np_stack_def
        query_vector_of_def np_median_axis0_def np_median_def upt_rec)
  from c1 c2 c3 c4 e1 e2 toy_centroid inv_sqrt_2_bounds show ?thesis by blast
qed

theorem prototype_builder_methods_witness:
  "[[1, 0], [0, 1], [1, 1]] = map snd (filter (\<lambda>(c, e). c = ''c'') toy_embeddings_table) \<and>
   [[1, 0], [0, 1], [1, 1::real]] \<noteq> [] \<and>
   list_all (\<lambda>e. length e = 2) [[1, 0], [0, 1], [1, 1::real]] \<and>
   create_query_vector toy_embeddings_table ''c'' ''mean'' = Inr [Fin (2 / 3), Fin (2 / 3)] \<and>
   create_query_vector toy_embeddings_table ''c'' ''median'' = Inr [Fin 1, Fin 1] \<and>
   list_all (\<lambda>e. rnorm e \<noteq> 0) [[1, 0], [0, 1], [1, 1::real]] \<and>
   rnorm (rmean_axis0 (map runit [[1, 0], [0, 1], [1, 1]])) \<noteq> 0 \<and>
   create_query_vector toy_embeddings_table ''c'' ''centroid'' =
     Inr (map Fin (runit (rmean_axis0 (map runit [[1, 0], [0, 1], [1, 1]])))) \<and>
   rnorm (runit (rmean_axis0 (map runit [[1, 0], [0, 1], [1, 1]]))) = 1"
proof -
  have h1: "[[1, 0], [0, 1], [1, 1]] =
      map snd (filter (\<lambda>(c, e). c = ''c'') toy_embeddings_table)"
    by (simp add: toy_embeddings_table_def)
  have h2: "[[1, 0], [0, 1], [1, 1::real]] \<noteq> []" by simp
  have h3: "\<forall>e \<in> set [[1, 0], [0, 1], [1, 1::real]]. length e = 2" by simp
  have h4: "\<forall>e \<in> set [[1, 0], [0, 1], [1, 1::real]]. rnorm e \<noteq> 0"
    by (simp add: rnorm_def)
  let ?a = "(1 + 1 / sqrt 2) / 3"
  have a: "0 < ?a" by (simp add: add_pos_pos)
  have m: "rmean_axis0 (map runit [[1, 0], [0, 1], [1, 1]]) = [?a, ?a]"
    by (simp add: rmean_axis0_def runit_def rnorm_def upt_rec)
  have n: "rnorm [?a, ?a] = ?a * sqrt 2"
    by (rule rnorm_pair) (use a in simp)
  have h5: "rnorm (rmean_axis0 (map runit [[1, 0], [0, 1], [1, 1]])) \<noteq> 0"
    unfolding m n using a by simp
  note t = prototype_builder_methods [OF h1 h2 h3]
  from t h1 h2 h3 h4 h5 show ?thesis unfolding list_all_iff by blast
qed

section \<open>Results about nearest-prototype classification\<close>

lemma fgt_irrefl: "\<not> fgt a a"
  by (cases a) simp_all

lemma fgt_trans: "fgt a b \<Longrightarrow> fgt b c \<Longrightarrow> fgt a c"
  by (cases a; cases b; cases c) simp_all

lemma fgt_negtrans: "\<not> fgt a b \<Longrightarrow> \<not> fgt b c \<Longrightarrow> \<not> fgt a c"
  by (cases a; cases b; cases c) simp_all

lemma max_from_spec:
  assumes "length pre = i" and "bi < i" and "bv = pre ! bi"
    and "\<forall>j < i. \<not> fgt (pre ! j) bv" and "\<forall>j < bi. fgt bv (pre ! j)"
  shows "case max_from bi bv i vs of
           (b, v) \<Rightarrow> b < length (pre @ vs) \<and> v = (pre @ vs) ! b \<and>
                     (\<forall>j < length (pre @ vs). \<not> fgt ((pre @ vs) ! j) v) \<and>
                     (\<forall>j < b. fgt v ((pre @ vs) ! j))"
  using assms
proof (induction vs arbitrary: pre i bi bv)
  case Nil
  then show ?case by simp
next
  case (Cons v vs)
  let ?pre = "pre @ [v]"
  have len: "length ?pre = Suc i" using Cons.prems(1) by simp
  show ?case
  proof (cases "fgt v bv")
    case True
    have a: "\<forall>j < Suc i. \<not> fgt (?pre ! j) v"
    proof (intro allI impI)
      fix j assume "j < Suc i"
      show "\<not> fgt (?pre ! j) v"
      proof (cases "j < i")
        case True
        with Cons.prems have "\<not> fgt (pre ! j) bv" by simp
        with \<open>fgt v bv\<close> have "\<not> fgt (pre ! j) v" using fgt_trans by blast
        with True Cons.prems(1) show ?thesis by (simp add: nth_append)
      next
        case False
        with \<open>j < Suc i\<close> have "j = i" by simp
        with Cons.prems(1) show ?thesis by (auto simp add: fgt_irrefl nth_append)
      qed
    qed
    have b: "\<forall>j < i. fgt v (?pre ! j)"
    proof (intro allI impI)
      fix j assume j: "j < i"
      with Cons.prems have "\<not> fgt (pre ! j) bv" by simp
      with \<open>fgt v bv\<close> have "fgt v (pre ! j)" using fgt_negtrans by blast
      with j Cons.prems(1) show "fgt v (?pre ! j)" by (simp add: nth_append)
    qed
    have c: "v = ?pre ! i" unfolding Cons.prems(1) [symmetric] by simp
    from Cons.IH [OF len _ c a b] True show ?thesis by simp
  next
    case False
    have a: "\<forall>j < Suc i. \<not> fgt (?pre ! j) bv"
      using Cons.prems False by (auto simp add: nth_append less_Suc_eq)
    have b: "\<forall>j < bi. fgt bv (?pre ! j)"
      using Cons.prems by (auto simp add: nth_append)
    have c: "bv = ?pre ! bi" using Cons.prems by (simp add: nth_append)
    have d: "bi < Suc i" using Cons.prems by simp
    from Cons.IH [OF len d c a b] False show ?thesis by simp
  qed
qed

lemma torch_max_spec:
  assumes "r \<noteq> []"
  shows "fst (torch_max r) < length r \<and> snd (torch_max r) = r ! fst (torch_max r) \<and>
         (\<forall>j < length r. \<not> fgt (r ! j) (snd (torch_max r))) \<and>
         (\<forall>j < fst (torch_max r). fgt (snd (torch_max r)) (r ! j))"
proof -
  from assms obtain x xs where r: "r = x # xs" by (cases r) auto
  obtain b v where m: "max_from 0 x 1 xs = (b, v)" by (cases "max_from 0 x 1 xs")
  have "case max_from 0 x 1 xs of
           (b, v) \<Rightarrow> b < length ([x] @ xs) \<and> v = ([x] @ xs) ! b \<and>
                     (\<forall>j < length ([x] @ xs). \<not> fgt (([x] @ xs) ! j) v) \<and>
                     (\<forall>j < b. fgt v (([x] @ xs) ! j))"
    by (rule max_from_spec) (simp_all add: fgt_irrefl)
  then have S: "b < length (x # xs) \<and> v = (x # xs) ! b \<and>
                     (\<forall>j < length (x # xs). \<not> fgt ((x # xs) ! j) v) \<and>
                     (\<forall>j < b. fgt v ((x # xs) ! j))"
    unfolding m prod.case append_Cons append_Nil .
  have tm: "torch_max (x # xs) = (b, v)"
    using m by (simp add: torch_max_def)
  show ?thesis
    unfolding r tm fst_conv snd_conv by (rule S)
qed


lemma torch_stack_rect:
  "vs \<noteq> [] \<Longrightarrow> \<forall>v \<in> set vs. length v = d \<Longrightarrow> torch_stack vs = Inr vs"
  by (cases vs) (simp_all add: torch_stack_def list_all_iff)

lemma sims_row:
  "map (fdot (l2_normalize t)) (map l2_normalize (map snd query_vectors)) =
     map (\<lambda>q. cosine t (snd q)) query_vectors"
  by (simp add: cosine_def comp_def)

lemma classify_returns:
  assumes qv: "query_vectors \<noteq> []" and qd: "\<forall>q \<in> set query_vectors. length (snd q) = d"
    and te: "tile_embeddings \<noteq> []" and td: "\<forall>t \<in> set tile_embeddings. length t = d"
    and tm: "length tile_embeddings \<le> length tile_metadata"
  shows "run_process_classify query_vectors tile_embeddings tile_metadata top_k =
           Inr (map (\<lambda>i.
                  \<lparr> tile_id = i,
                    res_source_file = source_file (tile_metadata ! i),
                    res_tile_x = tile_x (tile_metadata ! i),
                    res_tile_y = tile_y (tile_metadata ! i),
                    res_tile_width = tile_width (tile_metadata ! i),
                    res_tile_height = tile_height (tile_metadata ! i),
                    res_row = row (tile_metadata ! i),
                    res_col = col (tile_metadata ! i),
                    best_class = map fst query_vectors !
                      fst (torch_max (map (\<lambda>q. cosine (tile_embeddings ! i) (snd q)) query_vectors)),
                    query_similarity =
                      snd (torch_max (map (\<lambda>q. cosine (tile_embeddings ! i) (snd q)) query_vectors)) \<rparr>)
                [0 ..< length tile_embeddings])"
proof -
  have st: "torch_stack (map snd query_vectors) = Inr (map snd query_vectors)"
    by (rule torch_stack_rect [where d = d]) (use qv qd in auto)
  from qv qd have hd: "length (hd (map l2_normalize (map snd query_vectors))) = d"
    by (cases query_vectors) simp_all
  from td have ok: "list_all (\<lambda>t. length t = d) tile_embeddings"
    by (simp add: list_all_iff)
  have "map (\<lambda>tile_idx.
          let best_query_idx = fst (map torch_max (map (\<lambda>t. map (\<lambda>p. fdot t p)
                  (map l2_normalize (map snd query_vectors)))
                  (map l2_normalize tile_embeddings)) ! tile_idx);
              tile_similarity = snd (map torch_max (map (\<lambda>t. map (\<lambda>p. fdot t p)
                  (map l2_normalize (map snd query_vectors)))
                  (map l2_normalize tile_embeddings)) ! tile_idx);
              tile_meta = tile_metadata ! tile_idx
          in \<lparr> tile_id = tile_idx,
               res_source_file = source_file tile_meta,
               res_tile_x = tile_x tile_meta,
               res_tile_y = tile_y tile_meta,
               res_tile_width = tile_width tile_meta,
               res_tile_height = tile_height tile_meta,
               res_row = row tile_meta,
               res_col = col tile_meta,
               best_class = map fst query_vectors ! best_query_idx,
               query_similarity = tile_similarity \<rparr>) [0 ..< length tile_embeddings]
        = map (\<lambda>i.
                  \<lparr> tile_id = i,
                    res_source_file = source_file (tile_metadata ! i),
                    res_tile_x = tile_x (tile_metadata ! i),
                    res_tile_y = tile_y (tile_metadata ! i),
                    res_tile_width = tile_width (tile_metadata ! i),
                    res_tile_height = tile_height (tile_metadata ! i),
                    res_row = row (tile_metadata ! i),
                    res_col = col (tile_metadata ! i),
                    best_class = map fst query_vectors !
                      fst (torch_max (map (\<lambda>q. cosine (tile_embeddings ! i) (snd q)) query_vectors)),
                    query_similarity =
                      snd (torch_max (map (\<lambda>q. cosine (tile_embeddings ! i) (snd q)) query_vectors)) \<rparr>)
                [0 ..< length tile_embeddings]"
    by (rule map_cong [OF refl]) (simp add: sims_row Let_def del: map_map)
  then show ?thesis
    unfolding run_process_classify_def Let_def st
    using te ok tm by (simp add: hd del: map_map)
qed


lemma fsum_Fin_map: "fsum (map (\<lambda>z. Fin (f z)) zs) = Fin (\<Sum>z\<leftarrow>zs. f z)"
  by (induction zs) (simp_all add: fsum_def)

lemma fdot_Fin: "fdot (map Fin a) (map Fin b) = Fin (rdot a b)"
proof -
  have "map (\<lambda>(x, y). fmul x y) (zip (map Fin a) (map Fin b)) =
        map (\<lambda>z. Fin (fst z * snd z)) (zip a b)"
    by (simp add: zip_map_map case_prod_unfold)
  then show ?thesis
    by (simp only: fdot_def rdot_def fsum_Fin_map case_prod_unfold)
qed

lemma cosine_Fin:
  "rnorm u \<noteq> 0 \<Longrightarrow> rnorm v \<noteq> 0 \<Longrightarrow>
   cosine (map Fin u) (map Fin v) = Fin (rdot (runit u) (runit v))"
  by (simp add: cosine_def l2_normalize_Fin fdot_Fin)

lemma rdot_two_sided:
  "length a = length b \<Longrightarrow>
   2 * rdot a b \<le> (\<Sum>x\<leftarrow>a. x * x) + (\<Sum>y\<leftarrow>b. y * y) \<and>
   - ((\<Sum>x\<leftarrow>a. x * x) + (\<Sum>y\<leftarrow>b. y * y)) \<le> 2 * rdot a b"
proof (induction a b rule: list_induct2)
  case Nil
  show ?case by (simp add: rdot_def)
next
  case (Cons x xs y ys)
  have "0 \<le> (x - y) * (x - y)" and "0 \<le> (x + y) * (x + y)" by simp_all
  then have "2 * (x * y) \<le> x * x + y * y" and "- (x * x + y * y) \<le> 2 * (x * y)"
    by (simp_all add: algebra_simps)
  with Cons.IH show ?case by (simp add: rdot_def)
qed

lemma unit_dot_bound:
  assumes "length a = length b" and "rnorm a = 1" and "rnorm b = 1"
  shows "- 1 \<le> rdot a b \<and> rdot a b \<le> 1"
proof -
  from assms(2) rnorm_square [of a] have "(\<Sum>x\<leftarrow>a. x * x) = 1" by simp
  moreover from assms(3) rnorm_square [of b] have "(\<Sum>y\<leftarrow>b. y * y) = 1" by simp
  ultimately show ?thesis using rdot_two_sided [OF assms(1)] by simp
qed



lemma toy_classification:
  "map (\<lambda>r. (tile_id r, best_class r, query_similarity r, res_tile_x r))
       (projr (run_process_classify (map (\<lambda>(c, p). (c, map Fin p)) toy_query_vectors)
                 (map (map Fin) toy_tile_embeddings) toy_tile_metadata top_k)) =
     [(0, ''rock'', Fin (4 / 5), 0), (1, ''sand'', Fin 1, 128)]"
  by (simp add: run_process_classify_def torch_stack_def l2_normalize_def linalg_norm_def
      fsum_def fdot_def torch_max_def toy_query_vectors_def toy_tile_embeddings_def
      toy_tile_metadata_def overlap_tile_def upt_rec)


subsection \<open>Single precision\<close>

lemma pow2_powr: "pow2 k = 2 powr real_of_int k"
proof (cases "0 \<le> k")
  case True
  then have "2 powr real_of_int k = 2 powr real (nat k)" by simp
  also have "\<dots> = 2 ^ nat k" by (simp add: powr_realpow)
  finally show ?thesis using True by (simp add: pow2_def)
next
  case False
  then have "2 powr real_of_int k = 2 powr (- real (nat (- k)))" by simp
  also have "\<dots> = 1 / 2 powr real (nat (- k))" by (simp only: powr_minus_divide)
  also have "\<dots> = 1 / 2 ^ nat (- k)" by (simp add: powr_realpow)
  finally show ?thesis using False by (simp add: pow2_def)
qed

lemma pow2_add: "pow2 (j + k) = pow2 j * pow2 k"
  by (simp add: pow2_powr powr_add)

lemma pow2_pos: "0 < pow2 k"
  by (simp add: pow2_powr)

lemma pow2_mono: "j \<le> k \<Longrightarrow> pow2 j \<le> pow2 k"
  by (simp add: pow2_powr)

lemma floor_log2_binade:
  assumes "pow2 e \<le> \<bar>x\<bar>" and "\<bar>x\<bar> < pow2 (e + 1)"
  shows "\<lfloor>log 2 \<bar>x\<bar>\<rfloor> = e"
proof -
  from assms(1) pow2_pos [of e] have "0 < \<bar>x\<bar>" by linarith
  moreover have "2 powr real_of_int e \<le> \<bar>x\<bar> \<and> \<bar>x\<bar> < 2 powr (real_of_int e + 1)"
    using assms by (simp add: pow2_powr)
  ultimately show ?thesis
    by (simp add: floor_log_eq_powr_iff)
qed

lemma round_half_even_near:
  assumes "real_of_int k - 1 / 2 < q" and "q < real_of_int k + 1 / 2"
  shows "round_half_even q = k"
proof -
  have "\<lfloor>q\<rfloor> = k \<or> \<lfloor>q\<rfloor> = k - 1" using assms by linarith
  then show ?thesis
  proof
    assume "\<lfloor>q\<rfloor> = k"
    with assms show ?thesis by (simp add: round_half_even_def Let_def) 
  next
    assume f: "\<lfloor>q\<rfloor> = k - 1"
    with assms have "1 / 2 < q - real_of_int (k - 1)" by linarith
    with f show ?thesis by (simp add: round_half_even_def Let_def)
  qed
qed

lemma round_half_even_bounds:
  "\<lfloor>q\<rfloor> \<le> round_half_even q \<and> round_half_even q \<le> \<lfloor>q\<rfloor> + 1"
  by (simp add: round_half_even_def Let_def)

lemma round_half_even_of_int: "round_half_even (real_of_int n) = n"
  by (simp add: round_half_even_def)

lemma round_half_even_abs:
  assumes "\<bar>q\<bar> \<le> real_of_int n"
  shows "\<bar>real_of_int (round_half_even q)\<bar> \<le> real_of_int n"
proof -
  from assms have ql: "- real_of_int n \<le> q" and qu: "q \<le> real_of_int n" by linarith+
  from ql have "real_of_int (- n) \<le> q" by simp
  then have lo: "- n \<le> \<lfloor>q\<rfloor>" by (simp only: le_floor_iff)
  have up: "round_half_even q \<le> n"
  proof (cases "q = real_of_int n")
    case True
    then show ?thesis by (simp add: round_half_even_of_int)
  next
    case False
    with qu have "q < real_of_int n" by simp
    then have "\<lfloor>q\<rfloor> < n" by (simp only: floor_less_iff)
    with round_half_even_bounds [of q] show ?thesis by linarith
  qed
  from lo round_half_even_bounds [of q] have "- n \<le> round_half_even q" by linarith
  with up have "\<bar>round_half_even q\<bar> \<le> n" by linarith
  then show ?thesis by linarith
qed

lemma f32_binade:
  assumes lo: "pow2 e \<le> \<bar>x\<bar>" and hi: "\<bar>x\<bar> < pow2 (e + 1)"
    and "- 126 \<le> e" and "e < 127"
  shows "f32 x = Fin (real_of_int (round_half_even (x / pow2 (e - 23))) * pow2 (e - 23))"
proof -
  let ?ulp = "pow2 (e - 23)"
  let ?r = "real_of_int (round_half_even (x / ?ulp)) * ?ulp"
  from lo pow2_pos [of e] have nz: "x \<noteq> 0" by auto
  have ex: "max \<lfloor>log 2 \<bar>x\<bar>\<rfloor> (- 126) = e"
    using floor_log2_binade [OF lo hi] assms(3) by simp
  have up: "0 < ?ulp" by (rule pow2_pos)
  have "pow2 (e + 1) = pow2 24 * ?ulp"
    using pow2_add [of 24 "e - 23"] by (simp add: add.commute)
  with hi have "\<bar>x\<bar> < pow2 24 * ?ulp" by simp
  with up have "\<bar>x / ?ulp\<bar> \<le> pow2 24"
    by (simp add: abs_divide divide_le_eq less_imp_le)
  then have "\<bar>x / ?ulp\<bar> \<le> real_of_int 16777216" by (simp add: pow2_def)
  from round_half_even_abs [OF this]
  have "\<bar>real_of_int (round_half_even (x / ?ulp))\<bar> \<le> pow2 24" by (simp add: pow2_def)
  with up have "\<bar>?r\<bar> \<le> pow2 24 * ?ulp"
    by (simp add: abs_mult mult_right_mono)
  also have "\<dots> = pow2 (e + 1)"
    using pow2_add [of 24 "e - 23"] by (simp add: add.commute)
  also have "\<dots> \<le> pow2 127" by (rule pow2_mono) (use assms(4) in simp)
  also have "\<dots> < pow2 128" by (simp add: pow2_def)
  finally have "\<not> pow2 128 \<le> \<bar>?r\<bar>" by simp
  with nz ex show ?thesis
    by (simp add: f32_def Let_def)
qed


lemma sq0: "fmul32 (Fin (16276291 / 67108864)) (Fin (16276291 / 67108864)) = Fin (7895161 / 134217728)"
  unfolding fmul32_def fmul.simps f32_round.simps
  by (subst f32_binade [where e = "- 5"]) (simp_all add: pow2_def round_half_even_def Let_def)

lemma sq1: "fmul32 (Fin (16276291 / 16777216)) (Fin (16276291 / 16777216)) = Fin (7895161 / 8388608)"
  unfolding fmul32_def fmul.simps f32_round.simps
  by (subst f32_binade [where e = "- 1"]) (simp_all add: pow2_def round_half_even_def Let_def)

lemma acc0: "fadd32 (Fin 0) (Fin (7895161 / 134217728)) = Fin (7895161 / 134217728)"
  unfolding fadd32_def fadd.simps f32_round.simps
  by (subst f32_binade [where e = "- 5"]) (simp_all add: pow2_def round_half_even_def Let_def)

lemma acc1: "fadd32 (Fin (7895161 / 134217728)) (Fin (7895161 / 8388608)) = Fin (8388609 / 8388608)"
  unfolding fadd32_def fadd.simps f32_round.simps
  by (subst f32_binade [where e = 0]) (simp_all add: pow2_def round_half_even_def Let_def)

lemma root1: "fsqrt32 (Fin (8388609 / 8388608)) = Fin 1"
proof -
  let ?s = "8388609 / 8388608 :: real"
  have lo: "1 \<le> sqrt ?s" by simp
  have hi: "sqrt ?s < 16777217 / 16777216"
    by (rule real_less_lsqrt) (simp_all add: power2_eq_square)
  have k: "real_of_int 8388608 = 8388608" by simp
  have e: "sqrt ?s / pow2 (0 - 23) = 8388608 * sqrt ?s" by (simp add: pow2_def)
  have "round_half_even (8388608 * sqrt ?s) = 8388608"
  proof (rule round_half_even_near)
    from lo show "real_of_int 8388608 - 1 / 2 < 8388608 * sqrt ?s"
      unfolding k by linarith
    from hi show "8388608 * sqrt ?s < real_of_int 8388608 + 1 / 2"
      unfolding k by linarith
  qed
  moreover have "f32 (sqrt ?s) =
      Fin (real_of_int (round_half_even (sqrt ?s / pow2 (0 - 23))) * pow2 (0 - 23))"
  proof (rule f32_binade)
    from lo show "pow2 0 \<le> \<bar>sqrt ?s\<bar>" by (simp add: pow2_def)
    from hi have "sqrt ?s < 2" by linarith
    then show "\<bar>sqrt ?s\<bar> < pow2 (0 + 1)" by (simp add: pow2_def)
  qed simp_all
  ultimately have "f32 (sqrt ?s) = Fin 1"
    unfolding e by (simp add: pow2_def)
  then show ?thesis
    by (simp add: fsqrt32_def)
qed

lemma quo0: "fdiv32 (Fin (16276291 / 67108864)) (Fin 1) = Fin (16276291 / 67108864)"
  apply (simp add: fdiv32_def)
  by (subst f32_binade [where e = "- 3"]) (simp_all add: pow2_def round_half_even_def Let_def)

lemma quo1: "fdiv32 (Fin (16276291 / 16777216)) (Fin 1) = Fin (16276291 / 16777216)"
  apply (simp add: fdiv32_def)
  by (subst f32_binade [where e = "- 1"]) (simp_all add: pow2_def round_half_even_def Let_def)

lemma toy_unit32_norm: "linalg_norm32 toy_unit32 = Fin 1"
  by (simp add: linalg_norm32_def toy_unit32_def sq0 sq1 acc0 acc1 root1)

lemma toy_unit32_fixed: "l2_normalize32 toy_unit32 = toy_unit32"
  unfolding l2_normalize32_def toy_unit32_norm
  by (simp add: toy_unit32_def quo0 quo1)

lemma toy_unit32_dot: "fdot32 toy_unit32 toy_unit32 = Fin (8388609 / 8388608)"
  by (simp add: fdot32_def toy_unit32_def sq0 sq1 acc0 acc1)


lemma one32: "fmul32 (Fin 1) (Fin 1) = Fin 1"
  apply (simp add: fmul32_def)
  by (subst f32_binade [where e = 0]) (simp_all add: pow2_def round_half_even_def Let_def)

lemma acc_one32: "fadd32 (Fin 0) (Fin 1) = Fin 1"
  apply (simp add: fadd32_def)
  by (subst f32_binade [where e = 0]) (simp_all add: pow2_def round_half_even_def Let_def)

lemma sixteen32: "fmul32 (Fin 4) (Fin 4) = Fin 16"
  apply (simp add: fmul32_def)
  by (subst f32_binade [where e = 4]) (simp_all add: pow2_def round_half_even_def Let_def)

lemma seventeen32: "fadd32 (Fin 1) (Fin 16) = Fin 17"
  apply (simp add: fadd32_def)
  by (subst f32_binade [where e = 4]) (simp_all add: pow2_def round_half_even_def Let_def)

lemma root17: "fsqrt32 (Fin 17) = Fin (8646779 / 2097152)"
proof -
  have lo: "17293557 / 4194304 < sqrt 17"
    by (rule real_less_rsqrt) (simp add: power2_eq_square)
  have hi: "sqrt 17 < 17293559 / 4194304"
    by (rule real_less_lsqrt) (simp_all add: power2_eq_square)
  have k: "real_of_int 8646779 = 8646779" by simp
  have e: "sqrt 17 / pow2 (2 - 23) = 2097152 * sqrt 17" by (simp add: pow2_def)
  have "round_half_even (2097152 * sqrt 17) = 8646779"
  proof (rule round_half_even_near)
    from lo show "real_of_int 8646779 - 1 / 2 < 2097152 * sqrt 17"
      unfolding k by linarith
    from hi show "2097152 * sqrt 17 < real_of_int 8646779 + 1 / 2"
      unfolding k by linarith
  qed
  moreover have "f32 (sqrt 17) =
      Fin (real_of_int (round_half_even (sqrt 17 / pow2 (2 - 23))) * pow2 (2 - 23))"
  proof (rule f32_binade)
    from lo have "4 \<le> sqrt 17" by linarith
    then show "pow2 2 \<le> \<bar>sqrt 17\<bar>" by (simp add: pow2_def)
    from hi have "sqrt 17 < 8" by linarith
    then show "\<bar>sqrt 17\<bar> < pow2 (2 + 1)" by (simp add: pow2_def)
  qed simp_all
  ultimately have "f32 (sqrt 17) = Fin (8646779 / 2097152)"
    unfolding e by (simp add: pow2_def)
  then show ?thesis
    by (simp add: fsqrt32_def)
qed

lemma quo17_0: "fdiv32 (Fin 1) (Fin (8646779 / 2097152)) = Fin (16276291 / 67108864)"
  apply (simp add: fdiv32_def)
  by (subst f32_binade [where e = "- 3"]) (simp_all add: pow2_def round_half_even_def Let_def)

lemma quo17_1: "fdiv32 (Fin 4) (Fin (8646779 / 2097152)) = Fin (16276291 / 16777216)"
  apply (simp add: fdiv32_def)
  by (subst f32_binade [where e = "- 1"]) (simp_all add: pow2_def round_half_even_def Let_def)

lemma toy_unit32_origin: "l2_normalize32 [Fin 1, Fin 4] = toy_unit32"
proof -
  have "linalg_norm32 [Fin 1, Fin 4] = Fin (8646779 / 2097152)"
    by (simp add: linalg_norm32_def one32 acc_one32 sixteen32 seventeen32 root17)
  then show ?thesis
    by (simp add: l2_normalize32_def toy_unit32_def quo17_0 quo17_1)
qed

lemma toy_classification32:
  "run_process_classify32 [(''sand'', toy_unit32)] [toy_unit32] [overlap_tile 0 0] top_k =
     Inr [\<lparr> tile_id = 0, res_source_file = ''raster.tif'', res_tile_x = 0, res_tile_y = 0,
            res_tile_width = 256, res_tile_height = 256, res_row = 0, res_col = 0,
            best_class = ''sand'', query_similarity = Fin (8388609 / 8388608) \<rparr>]"
proof -
  have l: "length toy_unit32 = 2" by (simp add: toy_unit32_def)
  show ?thesis
    unfolding run_process_classify32_def
    by (simp add: torch_stack_def toy_unit32_fixed toy_unit32_dot l torch_max_def
        overlap_tile_def)
qed

text \<open>
  C8. The claim: with tile embeddings and prototypes of norm other than zero every recorded
  score lies between -1 and 1. In single precision it does not: the unit vector that the
  normalisation produces from the features \<open>[1, 4]\<close> has norm 1, and classified against
  itself as the prototype it gets the score \<open>1 + 1 / 8388608\<close>. The code divides by the norms
  and records the product as it is; nothing clamps it.
\<close>

theorem float32_similarity_exceeds_one:
  "l2_normalize32 [Fin 1, Fin 4] = toy_unit32 \<and>
   linalg_norm32 toy_unit32 = Fin 1 \<and>
   run_process_classify32 [(''sand'', toy_unit32)] [toy_unit32] [overlap_tile 0 0] 5 =
     Inr [\<lparr> tile_id = 0, res_source_file = ''raster.tif'', res_tile_x = 0, res_tile_y = 0,
            res_tile_width = 256, res_tile_height = 256, res_row = 0, res_col = 0,
            best_class = ''sand'', query_similarity = Fin (8388609 / 8388608) \<rparr>] \<and>
   (1::real) < 8388609 / 8388608"
  by (simp add: toy_unit32_origin toy_unit32_norm toy_classification32)

subsection \<open>Exact arithmetic\<close>

text \<open>
  C8, in exact arithmetic. For tile embeddings and stored prototypes of one width and of
  norm other than zero, whatever the norm of a stored prototype is, the prototype is
  divided by its norm at classification time: every score is the dot product of the
  tile's unit vector with the chosen prototype's unit vector, both of norm 1, and in exact
  arithmetic it lies between -1 and 1.
\<close>

theorem similarity_scores_bounded:
  assumes "protos \<noteq> []"
    and "\<forall>q \<in> set protos. length (snd q) = d \<and> rnorm (snd q) \<noteq> 0"
    and "tiles \<noteq> []"
    and "\<forall>t \<in> set tiles. length t = d \<and> rnorm t \<noteq> 0"
    and "length tile_metadata = length tiles"
  shows "\<exists>results.
           run_process_classify (map (\<lambda>(c, p). (c, map Fin p)) protos) (map (map Fin) tiles)
             tile_metadata top_k = Inr results \<and>
           length results = length tiles \<and>
           (\<forall>i < length tiles.
              \<exists>b < length protos. \<exists>s.
                 best_class (results ! i) = fst (protos ! b) \<and>
                 query_similarity (results ! i) = Fin s \<and>
                 s = rdot (runit (tiles ! i)) (runit (snd (protos ! b))) \<and>
                 rnorm (runit (snd (protos ! b))) = 1 \<and>
                 rnorm (runit (tiles ! i)) = 1 \<and>
                 - 1 \<le> s \<and> s \<le> 1)"
proof -
  let ?qv = "map (\<lambda>(c, p). (c, map Fin p)) protos"
  let ?te = "map (map Fin) tiles"
  have h1: "?qv \<noteq> []" using assms(1) by simp
  have h2: "\<forall>q \<in> set ?qv. length (snd q) = d" using assms(2) by auto
  have h3: "?te \<noteq> []" using assms(3) by simp
  have h4: "\<forall>t \<in> set ?te. length t = d" using assms(4) by auto
  have h5: "length ?te \<le> length tile_metadata" using assms(5) by simp
  note run = classify_returns [OF h1 h2 h3 h4 h5, of top_k]
  have row: "map (\<lambda>q. cosine (?te ! i) (snd q)) ?qv =
             map (\<lambda>q. Fin (rdot (runit (tiles ! i)) (runit (snd q)))) protos"
    if i: "i < length tiles" for i
  proof -
    from i assms(4) have "rnorm (tiles ! i) \<noteq> 0" by simp
    with assms(2) i show ?thesis
      by (auto simp add: cosine_Fin case_prod_unfold)
  qed
  have one: "\<exists>b < length protos. \<exists>s.
      map fst ?qv ! fst (torch_max (map (\<lambda>q. cosine (?te ! i) (snd q)) ?qv)) = fst (protos ! b) \<and>
      snd (torch_max (map (\<lambda>q. cosine (?te ! i) (snd q)) ?qv)) = Fin s \<and>
      s = rdot (runit (tiles ! i)) (runit (snd (protos ! b))) \<and>
      rnorm (runit (snd (protos ! b))) = 1 \<and> rnorm (runit (tiles ! i)) = 1 \<and>
      - 1 \<le> s \<and> s \<le> 1"
    if i: "i < length tiles" for i
  proof -
    let ?r = "map (\<lambda>q. Fin (rdot (runit (tiles ! i)) (runit (snd q)))) protos"
    let ?b = "fst (torch_max ?r)"
    from assms(1) have "?r \<noteq> []" by simp
    from torch_max_spec [OF this]
    have b0: "?b < length ?r" and v: "snd (torch_max ?r) = ?r ! ?b" by blast+
    from b0 have b: "?b < length protos" by simp
    from v b have v': "snd (torch_max ?r) = Fin (rdot (runit (tiles ! i)) (runit (snd (protos ! ?b))))"
      by simp
    from i assms(4) have ti: "length (tiles ! i) = d" "rnorm (tiles ! i) \<noteq> 0" by simp_all
    from b assms(2) have pb: "length (snd (protos ! ?b)) = d" "rnorm (snd (protos ! ?b)) \<noteq> 0"
      by simp_all
    have u1: "rnorm (runit (tiles ! i)) = 1" by (rule rnorm_runit [OF ti(2)])
    have u2: "rnorm (runit (snd (protos ! ?b))) = 1" by (rule rnorm_runit [OF pb(2)])
    have "length (runit (tiles ! i)) = length (runit (snd (protos ! ?b)))"
      using ti(1) pb(1) by simp
    from unit_dot_bound [OF this u1 u2]
    have bd: "- 1 \<le> rdot (runit (tiles ! i)) (runit (snd (protos ! ?b)))"
      "rdot (runit (tiles ! i)) (runit (snd (protos ! ?b))) \<le> 1" by simp_all
    have cls: "map fst ?qv ! ?b = fst (protos ! ?b)"
      using b by (simp add: case_prod_unfold)
    from b cls v' u1 u2 bd show ?thesis
      unfolding row [OF i] by (intro exI [of _ ?b]) blast
  qed
  show ?thesis
    unfolding run using one by simp
qed

theorem similarity_scores_bounded_witness:
  "toy_query_vectors \<noteq> [] \<and>
   list_all (\<lambda>q. length (snd q) = 2 \<and> rnorm (snd q) \<noteq> 0) toy_query_vectors \<and>
   toy_tile_embeddings \<noteq> [] \<and>
   list_all (\<lambda>t. length t = 2 \<and> rnorm t \<noteq> 0) toy_tile_embeddings \<and>
   length toy_tile_metadata = length toy_tile_embeddings \<and>
   rnorm (snd (toy_query_vectors ! 1)) = 2 \<and>
   (\<exists>results.
      run_process_classify (map (\<lambda>(c, p). (c, map Fin p)) toy_query_vectors)
        (map (map Fin) toy_tile_embeddings) toy_tile_metadata 5 = Inr results \<and>
      length results = 2 \<and>
      map (\<lambda>r. (tile_id r, best_class r, query_similarity r, res_tile_x r)) results =
        [(0, ''rock'', Fin (4 / 5), 0), (1, ''sand'', Fin 1, 128)])"
proof -
  have h1: "toy_query_vectors \<noteq> []"
    by (simp add: toy_query_vectors_def)
  have h2: "\<forall>q \<in> set toy_query_vectors. length (snd q) = 2 \<and> rnorm (snd q) \<noteq> 0"
    by (simp add: toy_query_vectors_def rnorm_def)
  have h3: "toy_tile_embeddings \<noteq> []"
    by (simp add: toy_tile_embeddings_def)
  have h4: "\<forall>t \<in> set toy_tile_embeddings. length t = 2 \<and> rnorm t \<noteq> 0"
    by (simp add: toy_tile_embeddings_def rnorm_def)
  have h5: "length toy_tile_metadata = length toy_tile_embeddings"
    by (simp add: toy_tile_metadata_def toy_tile_embeddings_def)
  have n: "rnorm (snd (toy_query_vectors ! 1)) = 2"
    by (simp add: toy_query_vectors_def rnorm_def)
  from similarity_scores_bounded [OF h1 h2 h3 h4 h5, of 5]
  obtain results where
    r: "run_process_classify (map (\<lambda>(c, p). (c, map Fin p)) toy_query_vectors)
        (map (map Fin) toy_tile_embeddings) toy_tile_metadata 5 = Inr results"
    and l: "length results = length toy_tile_embeddings"
    by blast
  from l have l2: "length results = 2" by (simp add: toy_tile_embeddings_def)
  from toy_classification [of 5] r
  have v: "map (\<lambda>r. (tile_id r, best_class r, query_similarity r, res_tile_x r)) results =
        [(0, ''rock'', Fin (4 / 5), 0), (1, ''sand'', Fin 1, 128)]"
    by simp
  have ex: "\<exists>results.
      run_process_classify (map (\<lambda>(c, p). (c, map Fin p)) toy_query_vectors)
        (map (map Fin) toy_tile_embeddings) toy_tile_metadata 5 = Inr results \<and>
      length results = 2 \<and>
      map (\<lambda>r. (tile_id r, best_class r, query_similarity r, res_tile_x r)) results =
        [(0, ''rock'', Fin (4 / 5), 0), (1, ''sand'', Fin 1, 128)]"
    by (rule exI [of _ results]) (simp only: r l2 v simp_thms)
  show ?thesis
    unfolding list_all_iff
    by (intro conjI) (rule h1, rule h2, rule h3, rule h4, rule h5, rule n, rule ex)
qed

end
